theory Spec2Isabelle
  imports Complex_Main "HOL-Library.AList"
begin

section \<open>Strings\<close>

text \<open>
  Python \<open>str\<close> values are modelled as \<open>string\<close>: a character is one of the code
  points \<open>U+0000\<close> to \<open>U+00FF\<close>. On these the character classes that the source uses
  (\<open>str.lower\<close>, \<open>str.isupper\<close>, \<open>str.isalnum\<close>, the regular expression classes \<open>\s\<close>,
  \<open>[a-z0-9_]\<close> and \<open>[A-Z_]\<close>) are as Python has them.
\<close>

definition lower_alphabet :: string where
  "lower_alphabet = ''abcdefghijklmnopqrstuvwxyz''"

definition upper_alphabet :: string where
  "upper_alphabet = ''ABCDEFGHIJKLMNOPQRSTUVWXYZ''"

definition digit_chars :: string where
  "digit_chars = ''0123456789''"

text \<open>The regular expression class \<open>[a-z0-9_]\<close>.\<close>

definition snake_chars :: string where
  "snake_chars = lower_alphabet @ digit_chars @ ''_''"

text \<open>
  The upper-case letters below \<open>U+0100\<close>, \<open>A\<close> to \<open>Z\<close> and \<open>U+00C0\<close> to \<open>U+00DE\<close> without
  the multiplication sign \<open>U+00D7\<close>, and, in the same order, the letters that
  \<open>str.lower\<close> gives for them.
\<close>

definition latin_upper :: string where
  "latin_upper =
     upper_alphabet @
     [CHR 0xC0, CHR 0xC1, CHR 0xC2, CHR 0xC3, CHR 0xC4, CHR 0xC5, CHR 0xC6,
      CHR 0xC7, CHR 0xC8, CHR 0xC9, CHR 0xCA, CHR 0xCB, CHR 0xCC, CHR 0xCD,
      CHR 0xCE, CHR 0xCF, CHR 0xD0, CHR 0xD1, CHR 0xD2, CHR 0xD3, CHR 0xD4,
      CHR 0xD5, CHR 0xD6, CHR 0xD8, CHR 0xD9, CHR 0xDA, CHR 0xDB, CHR 0xDC,
      CHR 0xDD, CHR 0xDE]"

definition latin_lower :: string where
  "latin_lower =
     lower_alphabet @
     [CHR 0xE0, CHR 0xE1, CHR 0xE2, CHR 0xE3, CHR 0xE4, CHR 0xE5, CHR 0xE6,
      CHR 0xE7, CHR 0xE8, CHR 0xE9, CHR 0xEA, CHR 0xEB, CHR 0xEC, CHR 0xED,
      CHR 0xEE, CHR 0xEF, CHR 0xF0, CHR 0xF1, CHR 0xF2, CHR 0xF3, CHR 0xF4,
      CHR 0xF5, CHR 0xF6, CHR 0xF8, CHR 0xF9, CHR 0xFA, CHR 0xFB, CHR 0xFC,
      CHR 0xFD, CHR 0xFE]"

definition lower_char :: "char \<Rightarrow> char" where
  "lower_char c =
     (case map_of (zip latin_upper latin_lower) c of Some d \<Rightarrow> d | None \<Rightarrow> c)"

text \<open>\<open>str.lower()\<close>\<close>

definition lower :: "string \<Rightarrow> string" where
  "lower s = map lower_char s"

text \<open>\<open>c.isupper()\<close> for one character.\<close>

definition isupper :: "char \<Rightarrow> bool" where
  "isupper c = (c \<in> set latin_upper)"

text \<open>
  \<open>c.isalnum()\<close> for one character: the letters, which below \<open>U+0100\<close> are those above
  with \<open>U+00AA\<close>, \<open>U+00B5\<close>, \<open>U+00BA\<close>, \<open>U+00DF\<close> and \<open>U+00FF\<close>, the digits, and the
  numeric characters \<open>U+00B2\<close>, \<open>U+00B3\<close>, \<open>U+00B9\<close>, \<open>U+00BC\<close>, \<open>U+00BD\<close> and
  \<open>U+00BE\<close>.
\<close>

definition isalnum :: "char \<Rightarrow> bool" where
  "isalnum c =
     (c \<in> set (latin_lower @ latin_upper @ digit_chars
               @ [CHR 0xAA, CHR 0xB5, CHR 0xBA, CHR 0xDF, CHR 0xFF,
                  CHR 0xB2, CHR 0xB3, CHR 0xB9, CHR 0xBC, CHR 0xBD, CHR 0xBE]))"

text \<open>
  The class \<open>\s\<close> of a \<open>str\<close> pattern: tab, line feed, vertical tab, form feed, carriage
  return, the four separators \<open>0x1C\<close> to \<open>0x1F\<close>, the space, the next-line character
  \<open>U+0085\<close> and the no-break space \<open>U+00A0\<close>.
\<close>

definition is_space :: "char \<Rightarrow> bool" where
  "is_space c = (c \<in> set [CHR 0x09, CHR 0x0A, CHR 0x0B, CHR 0x0C, CHR 0x0D,
                           CHR 0x1C, CHR 0x1D, CHR 0x1E, CHR 0x1F, CHR 0x20,
                           CHR 0x85, CHR 0xA0])"

text \<open>The class \<open>[\s\-]\<close>.\<close>

definition is_sep :: "char \<Rightarrow> bool" where
  "is_sep c = (is_space c \<or> c = CHR ''-'')"

definition is_underscore :: "char \<Rightarrow> bool" where
  "is_underscore c = (c = CHR ''_'')"

text \<open>
  \<open>re.sub(r'[P]+', '_', s)\<close> for a character class \<open>P\<close>: every maximal run of characters of
  the class is replaced by one underscore.
\<close>

function sub_runs :: "(char \<Rightarrow> bool) \<Rightarrow> string \<Rightarrow> string" where
  "sub_runs P [] = []"
| "sub_runs P (c # cs) =
     (if P c then CHR ''_'' # sub_runs P (dropWhile P cs) else c # sub_runs P cs)"
  by pat_completeness auto
termination
  by (relation "measure (\<lambda>(P, s). length s)") (auto simp: le_imp_less_Suc length_dropWhile_le)

text \<open>\<open>s.strip('_')\<close>\<close>

definition strip_underscores :: "string \<Rightarrow> string" where
  "strip_underscores s = rev (dropWhile is_underscore (rev (dropWhile is_underscore s)))"

text \<open>\<open>s.replace(a, b)\<close> for single characters \<open>a\<close> and \<open>b\<close>.\<close>

definition replace_char :: "char \<Rightarrow> char \<Rightarrow> string \<Rightarrow> string" where
  "replace_char a b s = map (\<lambda>c. if c = a then b else c) s"

text \<open>\<open>s.startswith(p)\<close>\<close>

definition startswith :: "string \<Rightarrow> string \<Rightarrow> bool" where
  "startswith s p = (take (length p) s = p)"

text \<open>\<open>p in s\<close> for strings: \<open>p\<close> occurs in \<open>s\<close> as a contiguous substring.\<close>

fun contains :: "string \<Rightarrow> string \<Rightarrow> bool" where
  "contains p [] = (p = [])"
| "contains p (c # cs) = (startswith (c # cs) p \<or> contains p cs)"

text \<open>\<open>sep.join(parts)\<close>\<close>

fun join :: "string \<Rightarrow> string list \<Rightarrow> string" where
  "join sep [] = []"
| "join sep [s] = s"
| "join sep (s # t # ss) = s @ sep @ join sep (t # ss)"

text \<open>Decimal numerals, as \<open>str(n)\<close> and an f-string print an \<open>int\<close>.\<close>

definition digit_char :: "nat \<Rightarrow> char" where
  "digit_char n = digit_chars ! (n mod 10)"

fun show_nat :: "nat \<Rightarrow> string" where
  "show_nat n = (if n < 10 then [digit_char n] else show_nat (n div 10) @ [digit_char n])"

definition show_int :: "int \<Rightarrow> string" where
  "show_int i = (if i < 0 then ''-'' @ show_nat (nat (- i)) else show_nat (nat i))"

declare show_nat.simps [simp del]

section \<open>JSON values\<close>

text \<open>
  What \<open>json.load\<close> returns and what the open \<open>Dict[str, Any]\<close> fields hold. A Python
  \<open>dict\<close> is an association list in insertion order: \<open>d[k] = v\<close> is \<open>AList.update\<close>
  (in place for a key already there, appended otherwise), \<open>d.get(k)\<close> is \<open>map_of\<close>.
\<close>

datatype json =
    JNull
  | JBool bool
  | JInt int
  | JFloat real
  | JStr string
  | JArr "json list"
  | JObj "(string \<times> json) list"

type_synonym dict = "(string \<times> json) list"

text \<open>Python truthiness of a JSON value (\<open>if v\<close>, \<open>v and ...\<close>).\<close>

fun truthy :: "json \<Rightarrow> bool" where
  "truthy JNull = False"
| "truthy (JBool b) = b"
| "truthy (JInt i) = (i \<noteq> 0)"
| "truthy (JFloat r) = (r \<noteq> 0)"
| "truthy (JStr s) = (s \<noteq> [])"
| "truthy (JArr vs) = (vs \<noteq> [])"
| "truthy (JObj kvs) = (kvs \<noteq> [])"

text \<open>
  The functions of Python's library that the repository calls and that are not modelled
  here are taken as parameters: \<open>float_repr\<close> is how \<open>json.dumps\<close> prints a float,
  \<open>py_str\<close> is how an f-string prints a JSON value that is not a string,
  \<open>md5_hexdigest\<close> is \<open>hashlib.md5(s.encode()).hexdigest()\<close>, \<open>parse_float\<close> is how
  pydantic reads a string into a \<open>float\<close> field, and \<open>int_to_float\<close> is how it reads
  an \<open>int\<close> beyond \<open>2 ^ 53\<close>, which may have no \<open>float\<close> equal to it (rounded, or
  refused when out of range).
\<close>

record pylib =
  float_repr :: "real \<Rightarrow> string"
  py_str :: "json \<Rightarrow> string"
  md5_hexdigest :: "string \<Rightarrow> string"
  parse_float :: "string \<Rightarrow> real option"
  int_to_float :: "int \<Rightarrow> real option"

text \<open>An f-string field \<open>{v}\<close>: a string prints as itself.\<close>

fun fmt :: "pylib \<Rightarrow> json \<Rightarrow> string" where
  "fmt L (JStr s) = s"
| "fmt L v = py_str L v"

subsection \<open>\<open>json.dumps\<close> with its defaults\<close>

definition hex_digit :: "nat \<Rightarrow> char" where
  "hex_digit n = ''0123456789abcdef'' ! (n mod 16)"

text \<open>
  \<open>ensure_ascii=True\<close>: the quote and the backslash are escaped with a backslash, the
  control characters with a short escape have it, every other character outside
  \<open>0x20..0x7E\<close> is written \<open>\u00XX\<close>.
\<close>

definition escape_char :: "char \<Rightarrow> string" where
  "escape_char c =
     (if c = CHR 0x22 then [CHR 0x5C, CHR 0x22]
      else if c = CHR 0x5C then [CHR 0x5C, CHR 0x5C]
      else if c = CHR 0x0A then [CHR 0x5C, CHR ''n'']
      else if c = CHR 0x0D then [CHR 0x5C, CHR ''r'']
      else if c = CHR 0x09 then [CHR 0x5C, CHR ''t'']
      else if c = CHR 0x08 then [CHR 0x5C, CHR ''b'']
      else if c = CHR 0x0C then [CHR 0x5C, CHR ''f'']
      else if 32 \<le> (of_char c :: nat) \<and> (of_char c :: nat) \<le> 126 then [c]
      else [CHR 0x5C, CHR ''u'', CHR ''0'', CHR ''0'',
            hex_digit ((of_char c :: nat) div 16), hex_digit (of_char c)])"

definition json_string :: "string \<Rightarrow> string" where
  "json_string s = [CHR 0x22] @ concat (map escape_char s) @ [CHR 0x22]"

fun json_dumps :: "pylib \<Rightarrow> json \<Rightarrow> string" where
  "json_dumps L JNull = ''null''"
| "json_dumps L (JBool b) = (if b then ''true'' else ''false'')"
| "json_dumps L (JInt i) = show_int i"
| "json_dumps L (JFloat r) = float_repr L r"
| "json_dumps L (JStr s) = json_string s"
| "json_dumps L (JArr vs) = ''['' @ join '', '' (map (json_dumps L) vs) @ '']''"
| "json_dumps L (JObj kvs) =
     ''{'' @ join '', '' (map (\<lambda>(k, v). json_string k @ '': '' @ json_dumps L v) kvs) @ ''}''"

section \<open>The workflow model (\<open>models/workflow.py\<close>)\<close>

text \<open>
  The pydantic models as records. Position coordinates are Python floats; they are
  modelled as real numbers, so the rounding of \<open>x + 300\<close> is not modelled. The fields
  \<open>created_at\<close> and \<open>updated_at\<close> (the clock at construction) are left out.
\<close>

record NodePosition =
  pos_x :: real
  pos_y :: real

record N8nNode =
  n_id :: string
  n_name :: string
  n_type :: string
  position :: NodePosition
  parameters :: dict
  credentials :: "dict option"
  retries :: int
  retry_on_fail :: bool

record N8nWorkflow =
  w_name :: string
  nodes :: "N8nNode list"
  connections :: dict
  settings :: dict
  w_id :: "string option"
  active :: bool
  tags :: "string list"

subsection \<open>Errors\<close>

text \<open>What a pydantic \<open>ValidationError\<close> lists.\<close>

datatype schema_error =
    NodeNameNotSnakeCase
  | RetriesNotThree
  | NoNodes
  | WrongType string

text \<open>
  The messages of \<open>validate_workflow_json\<close> and \<open>_validate_node_structure\<close>, one
  constructor for each f-string, holding the values it prints.
\<close>

datatype struct_error =
    MissingField string
  | NodesNotArray
  | ConnectionsNotObject
  | NodeMissingField nat string
  | NodeNameNotSnake nat string
  | PositionNotPair nat
  | PositionCoordNotNumber nat nat

text \<open>
  The exceptions. \<open>WorkflowProcessorError\<close> is raised with five messages
  (\<open>WorkflowNotFound\<close>, \<open>InvalidJSON\<close>, \<open>InvalidWorkflowJSON\<close>, \<open>FailedToLoad\<close>,
  \<open>CannotCombineEmpty\<close>); \<open>FailedToLoad\<close> and \<open>FailedToAssemble\<close> hold the exception
  they wrap.
\<close>

datatype error =
    WorkflowNotFound string
  | InvalidJSON string
  | InvalidWorkflowJSON "struct_error list"
  | FailedToLoad string error
  | CannotCombineEmpty
  | ValidationError "schema_error list"
  | AttributeError
  | TypeError
  | KeyError
  | IndexError
  | FailedToAssemble error

fun is_processor_error :: "error \<Rightarrow> bool" where
  "is_processor_error (WorkflowNotFound n) = True"
| "is_processor_error (InvalidJSON n) = True"
| "is_processor_error (InvalidWorkflowJSON es) = True"
| "is_processor_error (FailedToLoad n e) = True"
| "is_processor_error CannotCombineEmpty = True"
| "is_processor_error e = False"

text \<open>Sequencing of computations that may raise.\<close>

definition bind :: "error + 'a \<Rightarrow> ('a \<Rightarrow> error + 'b) \<Rightarrow> error + 'b" where
  "bind m f = (case m of Inl e \<Rightarrow> Inl e | Inr v \<Rightarrow> f v)"

fun mapM :: "('a \<Rightarrow> error + 'b) \<Rightarrow> 'a list \<Rightarrow> error + 'b list" where
  "mapM f [] = Inr []"
| "mapM f (a # as) = bind (f a) (\<lambda>b. bind (mapM f as) (\<lambda>bs. Inr (b # bs)))"

subsection \<open>\<open>N8nNode\<close>\<close>

definition valid_chars :: string where
  "valid_chars = lower_alphabet @ upper_alphabet @ digit_chars @ ''_''"

definition special_chars :: string where
  "special_chars = ''!@#$%^&*()-+={}[]|'' @ [CHR 0x5C] @ '':;'' @ [CHR 0x22] @ ''<>?,./~'' @ [CHR 0x60]"

definition validate_naming_convention :: "string \<Rightarrow> schema_error + string" where
  "validate_naming_convention v =
     (if \<not> list_all (\<lambda>c. c \<in> set valid_chars) v then Inl NodeNameNotSnakeCase
      else if CHR '' '' \<in> set v \<or> list_ex isupper v \<or> list_ex (\<lambda>c. c \<in> set special_chars) v
      then Inl NodeNameNotSnakeCase
      else Inr v)"

definition validate_retry_count :: "int \<Rightarrow> schema_error + int" where
  "validate_retry_count v = (if v \<noteq> 3 then Inl RetriesNotThree else Inr v)"

definition field_errors :: "schema_error + 'a \<Rightarrow> schema_error list" where
  "field_errors r = (case r of Inl e \<Rightarrow> [e] | Inr v \<Rightarrow> [])"

text \<open>
  The constructor \<open>N8nNode(id=, name=, type=, position=, parameters=, credentials=,
  retries=, retry_on_fail=)\<close> on arguments of the annotated types: the two field
  validators run, and a \<open>ValidationError\<close> lists every field that failed.
\<close>

definition N8nNode_new ::
  "string \<Rightarrow> string \<Rightarrow> string \<Rightarrow> NodePosition \<Rightarrow> dict \<Rightarrow> dict option \<Rightarrow> int \<Rightarrow> bool
     \<Rightarrow> error + N8nNode" where
  "N8nNode_new i nm ty pos ps cr r rof =
     (let errs = field_errors (validate_naming_convention nm) @ field_errors (validate_retry_count r)
      in if errs \<noteq> [] then Inl (ValidationError errs)
         else Inr \<lparr>n_id = i, n_name = nm, n_type = ty, position = pos, parameters = ps,
                   credentials = cr, retries = r, retry_on_fail = rof\<rparr>)"

subsection \<open>\<open>N8nWorkflow\<close>\<close>

definition validate_workflow_naming :: "string \<Rightarrow> string" where
  "validate_workflow_naming v =
     (let n1 = replace_char CHR ''-'' CHR ''_'' (replace_char CHR '' '' CHR ''_'' (lower v));
          n2 = map (\<lambda>c. if c \<in> set snake_chars then c else CHR ''_'') n1
      in strip_underscores (sub_runs is_underscore n2))"

definition validate_required_nodes :: "N8nNode list \<Rightarrow> schema_error + N8nNode list" where
  "validate_required_nodes v = (if v = [] then Inl NoNodes else Inr v)"

text \<open>
  The constructor \<open>N8nWorkflow(name=, nodes=, connections=, settings=, id=, active=,
  tags=)\<close> on arguments of the annotated types: the name is normalised, an empty node
  list is refused.
\<close>

definition N8nWorkflow_new ::
  "string \<Rightarrow> N8nNode list \<Rightarrow> dict \<Rightarrow> dict \<Rightarrow> string option \<Rightarrow> bool \<Rightarrow> string list
     \<Rightarrow> error + N8nWorkflow" where
  "N8nWorkflow_new nm ns cs ss i a ts =
     (let errs = field_errors (validate_required_nodes ns)
      in if errs \<noteq> [] then Inl (ValidationError errs)
         else Inr \<lparr>w_name = validate_workflow_naming nm, nodes = ns, connections = cs,
                   settings = ss, w_id = i, active = a, tags = ts\<rparr>)"

subsection \<open>\<open>validate_node_connections\<close>\<close>

datatype conn_error =
    SourceNotFound string
  | DestNotFound json

text \<open>
  One destination: \<open>dest_node and dest_node not in node_ids\<close>. A truthy list or object is
  unhashable, so the membership test in the set raises \<open>TypeError\<close>.
\<close>

definition dest_errors :: "string list \<Rightarrow> json \<Rightarrow> error + conn_error list" where
  "dest_errors node_ids dest =
     (case dest of
        JObj d \<Rightarrow>
          (case map_of d ''node'' of
             None \<Rightarrow> Inr []
           | Some dest_node \<Rightarrow>
               if \<not> truthy dest_node then Inr []
               else (case dest_node of
                       JStr s \<Rightarrow> Inr (if s \<in> set node_ids then [] else [DestNotFound dest_node])
                     | JArr vs \<Rightarrow> Inl TypeError
                     | JObj kvs \<Rightarrow> Inl TypeError
                     | _ \<Rightarrow> Inr [DestNotFound dest_node]))
      | _ \<Rightarrow> Inr [])"

definition output_errors :: "string list \<Rightarrow> json \<Rightarrow> error + conn_error list" where
  "output_errors node_ids destinations =
     bind (mapM (dest_errors node_ids) (case destinations of JArr ds \<Rightarrow> ds | v \<Rightarrow> [v]))
       (\<lambda>ess. Inr (concat ess))"

definition source_errors :: "string list \<Rightarrow> string \<times> json \<Rightarrow> error + conn_error list" where
  "source_errors node_ids item =
     (if fst item \<notin> set node_ids then Inr [SourceNotFound (fst item)]
      else (case snd item of
              JObj outs \<Rightarrow>
                bind (mapM (\<lambda>out. output_errors node_ids (snd out)) outs) (\<lambda>ess. Inr (concat ess))
            | _ \<Rightarrow> Inl AttributeError))"

definition validate_node_connections :: "N8nWorkflow \<Rightarrow> error + conn_error list" where
  "validate_node_connections W =
     bind (mapM (source_errors (map n_id (nodes W))) (connections W)) (\<lambda>ess. Inr (concat ess))"

subsection \<open>\<open>to_n8n_json\<close> and \<open>from_n8n_json\<close>\<close>



text \<open>Python's \<open>d.get(k, default)\<close>, \<open>d[k]\<close>, \<open>xs[i]\<close>, \<open>k in d\<close> and iteration on a JSON value.\<close>

definition py_get :: "json \<Rightarrow> string \<Rightarrow> json \<Rightarrow> error + json" where
  "py_get d k dflt =
     (case d of
        JObj kvs \<Rightarrow> Inr (case map_of kvs k of Some v \<Rightarrow> v | None \<Rightarrow> dflt)
      | _ \<Rightarrow> Inl AttributeError)"

definition py_item :: "json \<Rightarrow> string \<Rightarrow> error + json" where
  "py_item d k =
     (case d of
        JObj kvs \<Rightarrow> (case map_of kvs k of Some v \<Rightarrow> Inr v | None \<Rightarrow> Inl KeyError)
      | _ \<Rightarrow> Inl TypeError)"

definition py_index :: "json \<Rightarrow> nat \<Rightarrow> error + json" where
  "py_index d i =
     (case d of
        JArr vs \<Rightarrow> if i < length vs then Inr (vs ! i) else Inl IndexError
      | JStr s \<Rightarrow> if i < length s then Inr (JStr [s ! i]) else Inl IndexError
      | JObj kvs \<Rightarrow> Inl KeyError
      | _ \<Rightarrow> Inl TypeError)"

definition py_in :: "string \<Rightarrow> json \<Rightarrow> error + bool" where
  "py_in k d =
     (case d of
        JObj kvs \<Rightarrow> Inr (k \<in> fst ` set kvs)
      | JArr vs \<Rightarrow> Inr (JStr k \<in> set vs)
      | JStr s \<Rightarrow> Inr (contains k s)
      | _ \<Rightarrow> Inl TypeError)"

definition py_iter :: "json \<Rightarrow> error + json list" where
  "py_iter d =
     (case d of
        JArr vs \<Rightarrow> Inr vs
      | JStr s \<Rightarrow> Inr (map (\<lambda>c. JStr [c]) s)
      | JObj kvs \<Rightarrow> Inr (map (\<lambda>kv. JStr (fst kv)) kvs)
      | _ \<Rightarrow> Inl TypeError)"

text \<open>
  How pydantic reads a value into a field of the annotated type (its lax mode): a
  \<open>str\<close> field takes a string only; a \<open>float\<close> field takes a number, a boolean or a
  numeric string (\<open>parse_float\<close>, a parameter); a \<open>bool\<close> field takes a boolean, the
  numbers 0 and 1 and the usual words; a \<open>Dict[str, Any]\<close> field takes an object. An
  \<open>int\<close> of magnitude up to \<open>2 ^ 53\<close> is a \<open>float\<close> as it is; a larger one goes through
  \<open>int_to_float\<close>, a parameter.
\<close>

definition as_str :: "string \<Rightarrow> json \<Rightarrow> schema_error + string" where
  "as_str field v = (case v of JStr s \<Rightarrow> Inr s | _ \<Rightarrow> Inl (WrongType field))"

definition as_float ::
  "(string \<Rightarrow> real option) \<Rightarrow> (int \<Rightarrow> real option) \<Rightarrow> string \<Rightarrow> json \<Rightarrow> schema_error + real" where
  "as_float pf itf field v =
     (case v of
        JInt i \<Rightarrow>
          if \<bar>i\<bar> \<le> 2 ^ 53 then Inr (real_of_int i)
          else (case itf i of Some r \<Rightarrow> Inr r | None \<Rightarrow> Inl (WrongType field))
      | JFloat r \<Rightarrow> Inr r
      | JBool b \<Rightarrow> Inr (if b then 1 else 0)
      | JStr s \<Rightarrow> (case pf s of Some r \<Rightarrow> Inr r | None \<Rightarrow> Inl (WrongType field))
      | _ \<Rightarrow> Inl (WrongType field))"

definition as_bool :: "string \<Rightarrow> json \<Rightarrow> schema_error + bool" where
  "as_bool field v =
     (case v of
        JBool b \<Rightarrow> Inr b
      | JInt i \<Rightarrow> if i = 0 then Inr False else if i = 1 then Inr True else Inl (WrongType field)
      | JFloat r \<Rightarrow> if r = 0 then Inr False else if r = 1 then Inr True else Inl (WrongType field)
      | JStr s \<Rightarrow>
          if lower s \<in> set [''0'', ''off'', ''f'', ''false'', ''n'', ''no''] then Inr False
          else if lower s \<in> set [''1'', ''on'', ''t'', ''true'', ''y'', ''yes''] then Inr True
          else Inl (WrongType field)
      | _ \<Rightarrow> Inl (WrongType field))"

definition as_dict :: "string \<Rightarrow> json \<Rightarrow> schema_error + dict" where
  "as_dict field v = (case v of JObj kvs \<Rightarrow> Inr kvs | _ \<Rightarrow> Inl (WrongType field))"

definition as_opt_dict :: "string \<Rightarrow> json \<Rightarrow> schema_error + dict option" where
  "as_opt_dict field v =
     (case v of JNull \<Rightarrow> Inr None | JObj kvs \<Rightarrow> Inr (Some kvs) | _ \<Rightarrow> Inl (WrongType field))"

definition as_opt_str :: "string \<Rightarrow> json \<Rightarrow> schema_error + string option" where
  "as_opt_str field v =
     (case v of JNull \<Rightarrow> Inr None | JStr s \<Rightarrow> Inr (Some s) | _ \<Rightarrow> Inl (WrongType field))"

definition as_str_list :: "string \<Rightarrow> json \<Rightarrow> schema_error + string list" where
  "as_str_list field v =
     (case v of
        JArr vs \<Rightarrow>
          if list_all (\<lambda>e. case e of JStr s \<Rightarrow> True | _ \<Rightarrow> False) vs
          then Inr (map (\<lambda>e. case e of JStr s \<Rightarrow> s | _ \<Rightarrow> []) vs)
          else Inl (WrongType field)
      | _ \<Rightarrow> Inl (WrongType field))"

definition then_check :: "schema_error + 'a \<Rightarrow> ('a \<Rightarrow> schema_error + 'b) \<Rightarrow> schema_error + 'b" where
  "then_check r f = (case r of Inl e \<Rightarrow> Inl e | Inr v \<Rightarrow> f v)"

definition the_field :: "schema_error + 'a \<Rightarrow> 'a \<Rightarrow> 'a" where
  "the_field r dflt = (case r of Inl e \<Rightarrow> dflt | Inr v \<Rightarrow> v)"

text \<open>\<open>NodePosition(x=px, y=py)\<close> on JSON values.\<close>

definition NodePosition_of :: "pylib \<Rightarrow> json \<Rightarrow> json \<Rightarrow> error + NodePosition" where
  "NodePosition_of L px py =
     (let rx = as_float (parse_float L) (int_to_float L) ''x'' px;
          ry = as_float (parse_float L) (int_to_float L) ''y'' py;
          errs = field_errors rx @ field_errors ry
      in if errs \<noteq> [] then Inl (ValidationError errs)
         else Inr \<lparr>pos_x = the_field rx 0, pos_y = the_field ry 0\<rparr>)"

text \<open>
  \<open>N8nNode(id=, name=, type=, position=, parameters=, credentials=)\<close> on JSON values:
  \<open>retries\<close> and \<open>retry_on_fail\<close> take their defaults.
\<close>

definition N8nNode_of_json ::
  "json \<Rightarrow> json \<Rightarrow> json \<Rightarrow> NodePosition \<Rightarrow> json \<Rightarrow> json \<Rightarrow> error + N8nNode" where
  "N8nNode_of_json i nm ty pos ps cr =
     (let ri = as_str ''id'' i;
          rn = then_check (as_str ''name'' nm) validate_naming_convention;
          rt = as_str ''type'' ty;
          rp = as_dict ''parameters'' ps;
          rc = as_opt_dict ''credentials'' cr;
          errs = field_errors ri @ field_errors rn @ field_errors rt @ field_errors rp
                 @ field_errors rc
      in if errs \<noteq> [] then Inl (ValidationError errs)
         else Inr \<lparr>n_id = the_field ri [], n_name = the_field rn [], n_type = the_field rt [],
                   position = pos, parameters = the_field rp [], credentials = the_field rc None,
                   retries = 3, retry_on_fail = True\<rparr>)"

definition node_from_json :: "pylib \<Rightarrow> json \<Rightarrow> error + N8nNode" where
  "node_from_json L node_data =
     bind (py_get node_data ''position'' (JArr [JInt 0, JInt 0])) (\<lambda>pos_data.
     bind (py_item node_data ''id'') (\<lambda>i.
     bind (py_item node_data ''name'') (\<lambda>nm.
     bind (py_item node_data ''type'') (\<lambda>ty.
     bind (py_index pos_data 0) (\<lambda>px.
     bind (py_index pos_data 1) (\<lambda>py.
     bind (NodePosition_of L px py) (\<lambda>pos.
     bind (py_get node_data ''parameters'' (JObj [])) (\<lambda>ps.
     bind (py_get node_data ''credentials'' JNull) (\<lambda>cr.
     N8nNode_of_json i nm ty pos ps cr)))))))))"

text \<open>
  \<open>N8nWorkflow(name=, nodes=, connections=, settings=, id=, active=, tags=)\<close> on JSON
  values and a list of nodes already built.
\<close>

definition N8nWorkflow_of_json ::
  "json \<Rightarrow> N8nNode list \<Rightarrow> json \<Rightarrow> json \<Rightarrow> json \<Rightarrow> json \<Rightarrow> json \<Rightarrow> error + N8nWorkflow" where
  "N8nWorkflow_of_json nm ns cs ss i a ts =
     (let rn = as_str ''name'' nm;
          rns = validate_required_nodes ns;
          rc = as_dict ''connections'' cs;
          rs = as_dict ''settings'' ss;
          ri = as_opt_str ''id'' i;
          ra = as_bool ''active'' a;
          rt = as_str_list ''tags'' ts;
          errs = field_errors rn @ field_errors rns @ field_errors rc @ field_errors rs
                 @ field_errors ri @ field_errors ra @ field_errors rt
      in if errs \<noteq> [] then Inl (ValidationError errs)
         else Inr \<lparr>w_name = validate_workflow_naming (the_field rn []), nodes = ns,
                   connections = the_field rc [], settings = the_field rs [],
                   w_id = the_field ri None, active = the_field ra False,
                   tags = the_field rt []\<rparr>)"

definition from_n8n_json :: "pylib \<Rightarrow> json \<Rightarrow> error + N8nWorkflow" where
  "from_n8n_json L data =
     bind (py_get data ''nodes'' (JArr [])) (\<lambda>nodes_data.
     bind (py_iter nodes_data) (\<lambda>items.
     bind (mapM (node_from_json L) items) (\<lambda>ns.
     bind (py_item data ''name'') (\<lambda>nm.
     bind (py_get data ''connections'' (JObj [])) (\<lambda>cs.
     bind (py_get data ''settings'' (JObj [])) (\<lambda>ss.
     bind (py_get data ''id'' JNull) (\<lambda>i.
     bind (py_get data ''active'' (JBool False)) (\<lambda>a.
     bind (py_get data ''tags'' (JArr [])) (\<lambda>ts.
     N8nWorkflow_of_json nm ns cs ss i a ts)))))))))"

section \<open>The workflow processor (\<open>integrations/n8n_processor.py\<close>)\<close>

subsection \<open>The raw-structure check\<close>

text \<open>
  \<open>re.match(r'^[a-z0-9_]+$', s)\<close>: the \<open>$\<close> also matches before a line feed that ends
  the string.
\<close>

definition matches_node_naming :: "string \<Rightarrow> bool" where
  "matches_node_naming s =
     (let t = (if s \<noteq> [] \<and> last s = CHR 0x0A then butlast s else s)
      in t \<noteq> [] \<and> list_all (\<lambda>c. c \<in> set snake_chars) t)"

definition missing_fields :: "string list \<Rightarrow> json \<Rightarrow> error + string list" where
  "missing_fields required d =
     bind (mapM (\<lambda>field. bind (py_in field d) (\<lambda>b. Inr (if b then [] else [field]))) required)
       (\<lambda>fss. Inr (concat fss))"

definition is_number :: "json \<Rightarrow> bool" where
  "is_number v = (case v of JInt i \<Rightarrow> True | JFloat r \<Rightarrow> True | JBool b \<Rightarrow> True | _ \<Rightarrow> False)"

definition name_errors :: "nat \<Rightarrow> json \<Rightarrow> error + struct_error list" where
  "name_errors index node_name =
     (if \<not> truthy node_name then Inr []
      else (case node_name of
              JStr s \<Rightarrow> Inr (if \<not> matches_node_naming (lower s) then [NodeNameNotSnake index s] else [])
            | _ \<Rightarrow> Inl AttributeError))"

definition position_errors :: "nat \<Rightarrow> json \<Rightarrow> struct_error list" where
  "position_errors index pos_data =
     (case pos_data of
        JArr coords \<Rightarrow>
          if length coords \<noteq> 2 then [PositionNotPair index]
          else concat (map (\<lambda>ic. if is_number (snd ic) then []
                                  else [PositionCoordNotNumber index (fst ic)])
                         (enumerate 0 coords))
      | _ \<Rightarrow> [PositionNotPair index])"

definition validate_node_structure :: "json \<Rightarrow> nat \<Rightarrow> error + struct_error list" where
  "validate_node_structure node index =
     bind (missing_fields [''id'', ''name'', ''type'', ''position''] node) (\<lambda>missing.
     bind (py_get node ''name'' (JStr [])) (\<lambda>node_name.
     bind (name_errors index node_name) (\<lambda>naming.
     bind (py_get node ''position'' (JArr [])) (\<lambda>pos_data.
     Inr (map (NodeMissingField index) missing @ naming @ position_errors index pos_data)))))"

definition validate_workflow_json :: "json \<Rightarrow> error + struct_error list" where
  "validate_workflow_json workflow_data =
     bind (missing_fields [''name'', ''nodes'', ''connections''] workflow_data) (\<lambda>missing.
     bind (py_get workflow_data ''nodes'' (JArr [])) (\<lambda>nodes_data.
     bind (case nodes_data of
             JArr ns \<Rightarrow>
               bind (mapM (\<lambda>ix. validate_node_structure (snd ix) (fst ix)) (enumerate 0 ns))
                 (\<lambda>ess. Inr (concat ess))
           | _ \<Rightarrow> Inr [NodesNotArray]) (\<lambda>node_errors.
     bind (py_get workflow_data ''connections'' (JObj [])) (\<lambda>conns.
     Inr (map MissingField missing @ node_errors
          @ (case conns of JObj kvs \<Rightarrow> [] | _ \<Rightarrow> [ConnectionsNotObject]))))))"

subsection \<open>\<open>load_workflow_from_vault\<close>\<close>

text \<open>
  The vault maps a workflow name to its file: absent, text that \<open>json.load\<close> refuses, or
  the value it parses to.
\<close>

datatype vault_file = Malformed | Parsed json

type_synonym vault = "string \<Rightarrow> vault_file option"

definition load_workflow_from_vault :: "pylib \<Rightarrow> vault \<Rightarrow> string \<Rightarrow> error + N8nWorkflow" where
  "load_workflow_from_vault L V workflow_name =
     (case V workflow_name of
        None \<Rightarrow> Inl (WorkflowNotFound workflow_name)
      | Some Malformed \<Rightarrow> Inl (InvalidJSON workflow_name)
      | Some (Parsed workflow_data) \<Rightarrow>
          (case bind (validate_workflow_json workflow_data) (\<lambda>errors.
                  if errors \<noteq> [] then Inl (InvalidWorkflowJSON errors)
                  else from_n8n_json L workflow_data) of
             Inl e \<Rightarrow> Inl (FailedToLoad workflow_name e)
           | Inr W \<Rightarrow> Inr W))"

subsection \<open>\<open>enforce_naming_conventions\<close>\<close>

definition normalize_name :: "string \<Rightarrow> string" where
  "normalize_name nm =
     (let n1 = sub_runs is_sep (lower nm);
          n2 = filter (\<lambda>c. c \<in> set snake_chars) n1;
          n3 = sub_runs is_underscore n2;
          n4 = strip_underscores n3
      in if n4 \<noteq> [] then n4 else ''unnamed'')"

definition known_prefixes :: "string list" where
  "known_prefixes = [''slack_'', ''hubspot_'', ''salesforce_'', ''gmail_'', ''notion_'']"

definition type_prefixes :: "(string \<times> string) list" where
  "type_prefixes =
     [(''n8n-nodes-base.slack'', ''slack_''),
      (''n8n-nodes-base.hubspot'', ''hubspot_''),
      (''n8n-nodes-base.salesforce'', ''salesforce_''),
      (''n8n-nodes-base.gmail'', ''gmail_''),
      (''n8n-nodes-base.notion'', ''notion_''),
      (''n8n-nodes-base.webhook'', ''webhook_'')]"

text \<open>\<open>prefix.split('_')[0]\<close>\<close>

definition split_first :: "string \<Rightarrow> string" where
  "split_first s = takeWhile (\<lambda>c. c \<noteq> CHR ''_'') s"

definition has_known_prefix :: "string \<Rightarrow> bool" where
  "has_known_prefix nm = list_ex (\<lambda>prefix. startswith nm (split_first prefix)) known_prefixes"

definition add_integration_prefix :: "N8nNode \<Rightarrow> string" where
  "add_integration_prefix node =
     (if has_known_prefix (n_name node) then n_name node
      else (let prefix = (case map_of type_prefixes (n_type node) of Some p \<Rightarrow> p | None \<Rightarrow> [])
            in if prefix \<noteq> [] then prefix @ n_name node else n_name node))"

definition enforce_node :: "N8nNode \<Rightarrow> N8nNode" where
  "enforce_node node =
     (let node1 = node\<lparr>n_name := normalize_name (n_name node)\<rparr>
      in node1\<lparr>n_name := add_integration_prefix node1\<rparr>)"

definition enforce_naming_conventions :: "N8nWorkflow \<Rightarrow> N8nWorkflow" where
  "enforce_naming_conventions W =
     W\<lparr>w_name := normalize_name (w_name W), nodes := map enforce_node (nodes W)\<rparr>"

subsection \<open>\<open>inject_retry_logic\<close>\<close>

definition inject_retry_node :: "N8nNode \<Rightarrow> N8nNode" where
  "inject_retry_node node =
     (if retries node = 3 \<and> retry_on_fail node then node
      else node\<lparr>retries := 3, retry_on_fail := True,
                parameters :=
                  (if ''retryOnFail'' \<in> fst ` set (parameters node) then parameters node
                   else AList.update ''waitBetweenTries'' (JInt 200)
                          (AList.update ''maxTries'' (JInt 3)
                             (AList.update ''retryOnFail'' (JBool True) (parameters node))))\<rparr>)"

definition inject_retry_logic :: "N8nWorkflow \<Rightarrow> N8nWorkflow" where
  "inject_retry_logic W = W\<lparr>nodes := map inject_retry_node (nodes W)\<rparr>"

subsection \<open>\<open>add_idempotency_keys\<close>\<close>

definition idempotent_types :: "string list" where
  "idempotent_types =
     [''n8n-nodes-base.googleSheets'', ''n8n-nodes-base.airtable'',
      ''n8n-nodes-base.salesforce'', ''n8n-nodes-base.hubspot'', ''n8n-nodes-base.notion'']"

definition supports_idempotency :: "N8nNode \<Rightarrow> bool" where
  "supports_idempotency node = (n_type node \<in> set idempotent_types)"

definition add_idempotency_keys :: "pylib \<Rightarrow> N8nWorkflow \<Rightarrow> string \<Rightarrow> N8nWorkflow" where
  "add_idempotency_keys L W key_field =
     (let workflow_salt = take 8 (md5_hexdigest L (w_name W));
          idempotency_expression = ''{{ hash('' @ [CHR 0x27] @ key_field @ [CHR 0x27] @ '') }}''
      in W\<lparr>nodes :=
             map (\<lambda>node.
                    if supports_idempotency node
                    then node\<lparr>parameters :=
                           AList.update ''workflowSalt'' (JStr workflow_salt)
                             (AList.update ''deduplicationField'' (JStr key_field)
                                (AList.update ''idempotencyKey'' (JStr idempotency_expression)
                                   (parameters node)))\<rparr>
                    else node)
               (nodes W)\<rparr>)"

subsection \<open>\<open>add_logging_instrumentation\<close> and \<open>add_error_handling\<close>\<close>

definition log_node :: "string \<Rightarrow> nat \<times> N8nNode \<Rightarrow> error + N8nNode" where
  "log_node workflow_name inode =
     (let i = fst inode; node = snd inode
      in N8nNode_new (''log_'' @ n_id node @ ''_'' @ show_nat i) (''log__'' @ n_name node)
           ''n8n-nodes-base.set''
           \<lparr>pos_x = pos_x (position node) + 300, pos_y = pos_y (position node)\<rparr>
           [(''values'',
             JObj [(''timestamp'', JStr ''{{ new Date().toISOString() }}''),
                   (''node_id'', JStr (n_id node)),
                   (''node_name'', JStr (n_name node)),
                   (''workflow_name'', JStr workflow_name),
                   (''execution_time'', JStr ''{{ $now - $nodeExecutionStart }}''),
                   (''success'', JStr ''{{ $node.success }}''),
                   (''item_count'', JStr ''{{ $input.all().length }}'')]),
            (''options'', JObj [(''dotNotation'', JBool True)])]
           None 3 True)"

definition add_logging_instrumentation :: "N8nWorkflow \<Rightarrow> error + N8nWorkflow" where
  "add_logging_instrumentation W =
     bind (mapM (log_node (w_name W))
             (filter (\<lambda>inode. \<not> (startswith (n_name (snd inode)) ''log__''
                                  \<or> startswith (n_name (snd inode)) ''error__''))
                (enumerate 0 (nodes W))))
       (\<lambda>logging_nodes. Inr (W\<lparr>nodes := nodes W @ logging_nodes\<rparr>))"

definition error_node :: "string \<Rightarrow> nat \<times> N8nNode \<Rightarrow> error + N8nNode" where
  "error_node workflow_name inode =
     (let i = fst inode; node = snd inode
      in N8nNode_new (''error_'' @ n_id node @ ''_'' @ show_nat i) (''error__'' @ n_name node)
           ''n8n-nodes-base.webhook''
           \<lparr>pos_x = pos_x (position node), pos_y = pos_y (position node) + 300\<rparr>
           [(''path'', JStr ''/error-handler''),
            (''httpMethod'', JStr ''POST''),
            (''responseMode'', JStr ''onReceived''),
            (''errorData'',
             JObj [(''original_node'', JStr (n_name node)),
                   (''workflow_name'', JStr workflow_name),
                   (''timestamp'', JStr ''{{ new Date().toISOString() }}''),
                   (''error_message'', JStr ''{{ $json.error }}''),
                   (''input_data'', JStr ''{{ $json.input }}'')])]
           None 3 True)"

text \<open>\<open>_update_error_connections\<close> is \<open>pass\<close>: the connections stay as they are.\<close>

definition add_error_handling :: "N8nWorkflow \<Rightarrow> error + N8nWorkflow" where
  "add_error_handling W =
     bind (mapM (error_node (w_name W))
             (filter (\<lambda>inode. \<not> startswith (n_name (snd inode)) ''error__'')
                (enumerate 0 (nodes W))))
       (\<lambda>error_nodes. Inr (W\<lparr>nodes := nodes W @ error_nodes\<rparr>))"

subsection \<open>\<open>combine_workflows\<close>\<close>

definition combine_node :: "string \<Rightarrow> real \<Rightarrow> real \<Rightarrow> N8nNode \<Rightarrow> error + N8nNode" where
  "combine_node workflow_name x_offset y_offset node =
     N8nNode_new (workflow_name @ ''_'' @ n_id node) (workflow_name @ ''_'' @ n_name node)
       (n_type node)
       \<lparr>pos_x = pos_x (position node) + x_offset, pos_y = pos_y (position node) + y_offset\<rparr>
       (parameters node) (credentials node) (retries node) (retry_on_fail node)"

definition rewrite_dest :: "pylib \<Rightarrow> string \<Rightarrow> json \<Rightarrow> json" where
  "rewrite_dest L workflow_name dest =
     (case dest of
        JObj d \<Rightarrow>
          (case map_of d ''node'' of
             Some v \<Rightarrow> JObj (AList.update ''node'' (JStr (workflow_name @ ''_'' @ fmt L v)) d)
           | None \<Rightarrow> dest)
      | _ \<Rightarrow> dest)"

definition rewrite_destinations :: "pylib \<Rightarrow> string \<Rightarrow> json \<Rightarrow> json" where
  "rewrite_destinations L workflow_name destinations =
     (case destinations of
        JArr ds \<Rightarrow> JArr (map (rewrite_dest L workflow_name) ds)
      | _ \<Rightarrow> destinations)"

definition rewrite_targets :: "pylib \<Rightarrow> string \<Rightarrow> json \<Rightarrow> error + json" where
  "rewrite_targets L workflow_name targets =
     (case targets of
        JObj outs \<Rightarrow>
          Inr (JObj (fold (\<lambda>out acc. AList.update (fst out)
                                        (rewrite_destinations L workflow_name (snd out)) acc)
                       outs []))
      | _ \<Rightarrow> Inl AttributeError)"

fun combine_connections :: "pylib \<Rightarrow> string \<Rightarrow> dict \<Rightarrow> dict \<Rightarrow> error + dict" where
  "combine_connections L workflow_name [] acc = Inr acc"
| "combine_connections L workflow_name (item # rest) acc =
     bind (rewrite_targets L workflow_name (snd item)) (\<lambda>t.
     combine_connections L workflow_name rest
       (AList.update (workflow_name @ ''_'' @ fst item) t acc))"

fun combine_rest :: "pylib \<Rightarrow> N8nWorkflow list \<Rightarrow> real \<Rightarrow> N8nWorkflow \<Rightarrow> error + N8nWorkflow" where
  "combine_rest L [] x_offset combined = Inr combined"
| "combine_rest L (workflow # rest) x_offset combined =
     bind (mapM (combine_node (w_name workflow) x_offset 0) (nodes workflow)) (\<lambda>new_nodes.
     bind (combine_connections L (w_name workflow) (connections workflow) (connections combined))
       (\<lambda>conns.
     combine_rest L rest (x_offset + 800)
       (combined\<lparr>nodes := nodes combined @ new_nodes, connections := conns\<rparr>)))"

definition combine_workflows :: "pylib \<Rightarrow> N8nWorkflow list \<Rightarrow> string \<Rightarrow> error + N8nWorkflow" where
  "combine_workflows L workflows combined_name =
     (case workflows of
        [] \<Rightarrow> Inl CannotCombineEmpty
      | [original] \<Rightarrow>
          N8nWorkflow_new combined_name (nodes original) (connections original)
            (settings original) (w_id original) (active original) (tags original)
      | first_workflow # rest \<Rightarrow>
          bind (N8nWorkflow_new combined_name (nodes first_workflow) (connections first_workflow)
                  (settings first_workflow) None False [])
            (combine_rest L rest 400))"

section \<open>The assembler (\<open>modules/assembly.py\<close>)\<close>

text \<open>The assembler reads the opportunity's title only.\<close>

record AutomationOpportunity =
  title :: string

definition generate_workflow_name :: "AutomationOpportunity \<Rightarrow> string" where
  "generate_workflow_name opportunity =
     filter (\<lambda>c. isalnum c \<or> c = CHR ''_'')
       (replace_char CHR ''-'' CHR ''_'' (replace_char CHR '' '' CHR ''_'' (lower (title opportunity))))
     @ ''_automation''"

definition assemble_workflows ::
  "pylib \<Rightarrow> vault \<Rightarrow> string list \<Rightarrow> AutomationOpportunity \<Rightarrow> error + N8nWorkflow" where
  "assemble_workflows L V workflow_names opportunity =
     (case bind (mapM (load_workflow_from_vault L V) workflow_names) (\<lambda>workflows.
           bind (combine_workflows L workflows (generate_workflow_name opportunity)) (\<lambda>c0.
           bind (add_logging_instrumentation
                   (add_idempotency_keys L
                      (inject_retry_logic (enforce_naming_conventions c0)) ''email'')) (\<lambda>c1.
           bind (add_error_handling c1) (\<lambda>combined_workflow.
           bind (validate_node_connections combined_workflow) (\<lambda>validation_errors.
           Inr combined_workflow))))) of
        Inl e \<Rightarrow> Inl (FailedToAssemble e)
      | Inr W \<Rightarrow> Inr W)"

section \<open>The validator (\<open>modules/validation.py\<close>)\<close>

text \<open>The entries of the list \<open>_find_hardcoded_secrets\<close> returns.\<close>

datatype secret =
    HardcodedPassword string
  | HardcodedToken string

text \<open>
  The messages of the validation results, one constructor for each message of the
  source, holding the values it prints. A result's \<open>details\<close> (always empty here) and
  \<open>timestamp\<close> are left out.
\<close>

datatype message =
    WorkflowNameRequired
  | WorkflowNameValid
  | MustContainNode
  | TooManyNodes nat nat
  | NodeCountAcceptable nat
  | ConnectionErrors "conn_error list"
  | ConnectionsValid
  | ErrorHandlingMissing
  | ErrorHandlingImplemented nat
  | RetryLogicMissing
  | RetryLogicImplemented nat
  | HardcodedSecretsFound "secret list"
  | NoHardcodedSecrets
  | MissingEnvVars "string set"
  | AllEnvVarsReferenced
  | ExecutionTimeTooHigh real real
  | ExecutionTimeAcceptable real
  | IntegrationsIdentified "string set"
  | NoIntegrations

record ValidationResult =
  passed :: bool
  level :: string
  message :: message

definition result :: "bool \<Rightarrow> string \<Rightarrow> message \<Rightarrow> ValidationResult" where
  "result p l m = \<lparr>passed = p, level = l, message = m\<rparr>"

text \<open>\<open>_load_validation_rules\<close>\<close>

definition max_nodes :: nat where
  "max_nodes = 50"

definition required_error_handling :: bool where
  "required_error_handling = True"

definition required_retry_logic :: bool where
  "required_retry_logic = True"

definition required_env_vars :: "string list" where
  "required_env_vars = [''NOTION_TOKEN'']"

definition max_execution_time_estimate :: real where
  "max_execution_time_estimate = 300"

definition validate_json_schema :: "N8nWorkflow \<Rightarrow> error + ValidationResult list" where
  "validate_json_schema W =
     bind (validate_node_connections W) (\<lambda>connection_errors.
     Inr [if w_name W = [] then result False ''schema'' WorkflowNameRequired
          else result True ''schema'' WorkflowNameValid,
          if length (nodes W) = 0 then result False ''schema'' MustContainNode
          else if length (nodes W) > max_nodes
          then result False ''schema'' (TooManyNodes (length (nodes W)) max_nodes)
          else result True ''schema'' (NodeCountAcceptable (length (nodes W))),
          if connection_errors \<noteq> [] then result False ''schema'' (ConnectionErrors connection_errors)
          else result True ''schema'' ConnectionsValid])"

definition validate_business_logic :: "N8nWorkflow \<Rightarrow> ValidationResult list" where
  "validate_business_logic W =
     (let error_nodes = filter (\<lambda>node. startswith (n_name node) ''error__'') (nodes W);
          nodes_with_retries = filter (\<lambda>node. retries node > 0) (nodes W)
      in [if required_error_handling \<and> error_nodes = [] then result False ''logic'' ErrorHandlingMissing
          else result True ''logic'' (ErrorHandlingImplemented (length error_nodes)),
          if required_retry_logic \<and> length nodes_with_retries = 0
          then result False ''logic'' RetryLogicMissing
          else result True ''logic'' (RetryLogicImplemented (length nodes_with_retries))])"

text \<open>The body of the loop of \<open>_find_hardcoded_secrets\<close>, for one node.\<close>

definition node_secrets :: "pylib \<Rightarrow> N8nNode \<Rightarrow> secret list" where
  "node_secrets L node =
     (let params_str = json_dumps L (JObj (parameters node))
      in (if contains ''password'' params_str \<and> \<not> contains ''{{'' params_str
          then [HardcodedPassword (n_name node)] else [])
         @ (if contains ''token'' params_str \<and> \<not> contains ''{{'' params_str
            then [HardcodedToken (n_name node)] else []))"

definition find_hardcoded_secrets :: "pylib \<Rightarrow> N8nWorkflow \<Rightarrow> secret list" where
  "find_hardcoded_secrets L W = concat (map (node_secrets L) (nodes W))"

text \<open>
  The pattern \<open>\$\{\{\s*\$env\.([A-Z_]+)\s*\}\}\<close> at the head of a string: the name it
  captures and what follows the match. No character of a class can start the next part
  of the pattern, so the greedy match is the only one.
\<close>

definition match_env_at :: "string \<Rightarrow> (string \<times> string) option" where
  "match_env_at s =
     (if \<not> startswith s ''${{'' then None
      else (let s1 = dropWhile is_space (drop 3 s)
            in if \<not> startswith s1 ''$env.'' then None
               else (let s2 = drop 5 s1;
                         var = takeWhile (\<lambda>c. c \<in> set (upper_alphabet @ ''_'')) s2;
                         s3 = dropWhile is_space (dropWhile (\<lambda>c. c \<in> set (upper_alphabet @ ''_'')) s2)
                     in if var \<noteq> [] \<and> startswith s3 ''}}'' then Some (var, drop 2 s3)
                        else None)))"

text \<open>
  \<open>re.findall\<close>: the matches from left to right, the search going on after each match.
  The recursion is on the number of characters left to scan.
\<close>

fun find_env_from :: "nat \<Rightarrow> string \<Rightarrow> string list" where
  "find_env_from 0 s = []"
| "find_env_from (Suc n) s =
     (case match_env_at s of
        Some (var, rest) \<Rightarrow> var # find_env_from (min n (length rest)) rest
      | None \<Rightarrow> find_env_from n (tl s))"

definition find_env_vars :: "string \<Rightarrow> string list" where
  "find_env_vars s = find_env_from (length s) s"

definition extract_env_variables :: "pylib \<Rightarrow> N8nWorkflow \<Rightarrow> string set" where
  "extract_env_variables L W =
     set (concat (map (\<lambda>node. find_env_vars (json_dumps L (JObj (parameters node)))) (nodes W)))"

definition validate_security :: "pylib \<Rightarrow> N8nWorkflow \<Rightarrow> ValidationResult list" where
  "validate_security L W =
     (let hardcoded_secrets = find_hardcoded_secrets L W;
          missing_vars = set required_env_vars - extract_env_variables L W
      in [if hardcoded_secrets \<noteq> [] then result False ''security'' (HardcodedSecretsFound hardcoded_secrets)
          else result True ''security'' NoHardcodedSecrets,
          if missing_vars \<noteq> {} then result False ''security'' (MissingEnvVars missing_vars)
          else result True ''security'' AllEnvVarsReferenced])"

definition estimate_execution_time :: "N8nWorkflow \<Rightarrow> real" where
  "estimate_execution_time W = real (length (nodes W)) * 2"

definition validate_performance :: "N8nWorkflow \<Rightarrow> ValidationResult list" where
  "validate_performance W =
     (let estimated_time = estimate_execution_time W
      in [if estimated_time > max_execution_time_estimate
          then result False ''performance''
                 (ExecutionTimeTooHigh estimated_time max_execution_time_estimate)
          else result True ''performance'' (ExecutionTimeAcceptable estimated_time)])"

definition node_integration :: "N8nNode \<Rightarrow> string list" where
  "node_integration node =
     (if contains ''slack'' (lower (n_type node)) then [''Slack'']
      else if contains ''hubspot'' (lower (n_type node)) then [''HubSpot'']
      else if contains ''notion'' (lower (n_type node)) then [''Notion'']
      else if contains ''gmail'' (lower (n_type node)) then [''Gmail'']
      else [])"

definition identify_integrations :: "N8nWorkflow \<Rightarrow> string set" where
  "identify_integrations W = set (concat (map node_integration (nodes W)))"

definition validate_integrations :: "N8nWorkflow \<Rightarrow> ValidationResult list" where
  "validate_integrations W =
     (let integration_types = identify_integrations W
      in [if integration_types \<noteq> {} then result True ''integration'' (IntegrationsIdentified integration_types)
          else result True ''integration'' NoIntegrations])"

definition validate_workflow :: "pylib \<Rightarrow> N8nWorkflow \<Rightarrow> error + ValidationResult list" where
  "validate_workflow L W =
     bind (validate_json_schema W) (\<lambda>schema.
     Inr (schema @ validate_business_logic W @ validate_security L W
          @ validate_performance W @ validate_integrations W))"

text \<open>The summary of \<open>generate_validation_report\<close>.\<close>

record summary =
  total_checks :: nat
  passed_checks :: nat
  failed_checks :: nat
  success_rate :: real
  overall_status :: string

definition report_summary :: "ValidationResult list \<Rightarrow> summary" where
  "report_summary results =
     (let total = length results;
          npassed = length (filter passed results);
          nfailed = total - npassed
      in \<lparr>total_checks = total, passed_checks = npassed, failed_checks = nfailed,
          success_rate = (if total > 0 then real npassed / real total else 0),
          overall_status = (if nfailed = 0 then ''PASS'' else ''FAIL'')\<rparr>)"

section \<open>Predicates used to state the properties\<close>

text \<open>
  A name in normal form: characters of \<open>[a-z0-9_]\<close> only, no two underscores in a row,
  no underscore at either end.
\<close>

fun no_double_underscore :: "string \<Rightarrow> bool" where
  "no_double_underscore [] = True"
| "no_double_underscore [a] = True"
| "no_double_underscore (a # b # cs) =
     (\<not> (a = CHR ''_'' \<and> b = CHR ''_'') \<and> no_double_underscore (b # cs))"

definition snake_case :: "string \<Rightarrow> bool" where
  "snake_case s =
     (list_all (\<lambda>c. c \<in> set snake_chars) s \<and> no_double_underscore s
      \<and> (s = [] \<or> (hd s \<noteq> CHR ''_'' \<and> last s \<noteq> CHR ''_'')))"

text \<open>Characters that \<open>json.dumps\<close> writes as they are.\<close>

definition plain :: "string \<Rightarrow> bool" where
  "plain p = list_all (\<lambda>c. escape_char c = [c]) p"


text \<open>
  The invariants of section 3 of the specification that the constructors establish: the
  workflow name is in normal form, there is a node, every node name passes the node
  validator and every retry count is 3.
\<close>

definition valid_workflow :: "N8nWorkflow \<Rightarrow> bool" where
  "valid_workflow W =
     (snake_case (w_name W) \<and> nodes W \<noteq> []
      \<and> list_all (\<lambda>node. validate_naming_convention (n_name node) = Inr (n_name node)
                          \<and> retries node = 3) (nodes W))"



text \<open>
  A connection map as section 3 of the specification has it: the keys of a Python
  \<open>dict\<close> are distinct, and every value is an object (with distinct keys) from output
  names to destinations.
\<close>

definition connection_map :: "dict \<Rightarrow> bool" where
  "connection_map cs =
     (distinct (map fst cs)
      \<and> list_all (\<lambda>item. case snd item of JObj outs \<Rightarrow> distinct (map fst outs) | _ \<Rightarrow> False) cs)"

text \<open>The node that \<open>combine_workflows\<close> builds from a node of a later workflow.\<close>

definition combined_node :: "string \<Rightarrow> real \<Rightarrow> N8nNode \<Rightarrow> N8nNode" where
  "combined_node workflow_name x_offset node =
     node\<lparr>n_id := workflow_name @ ''_'' @ n_id node,
          n_name := workflow_name @ ''_'' @ n_name node,
          position := \<lparr>pos_x = pos_x (position node) + x_offset, pos_y = pos_y (position node)\<rparr>\<rparr>"

text \<open>What the node validator accepts, character by character.\<close>

definition good_char :: "char \<Rightarrow> bool" where
  "good_char c =
     (c \<in> set valid_chars \<and> c \<noteq> CHR '' '' \<and> \<not> isupper c \<and> c \<notin> set special_chars)"

text \<open>What \<open>rewrite_targets\<close> returns where it returns.\<close>

definition the_targets :: "pylib \<Rightarrow> string \<Rightarrow> json \<Rightarrow> json" where
  "the_targets L wn t = (case rewrite_targets L wn t of Inr v \<Rightarrow> v | Inl e \<Rightarrow> t)"

text \<open>The shadow nodes that \<open>log_node\<close> and \<open>error_node\<close> build where they return.\<close>

definition log_shadow :: "string \<Rightarrow> nat \<Rightarrow> N8nNode \<Rightarrow> N8nNode" where
  "log_shadow workflow_name i node =
     \<lparr>n_id = ''log_'' @ n_id node @ ''_'' @ show_nat i, n_name = ''log__'' @ n_name node,
      n_type = ''n8n-nodes-base.set'',
      position = \<lparr>pos_x = pos_x (position node) + 300, pos_y = pos_y (position node)\<rparr>,
      parameters =
        [(''values'',
          JObj [(''timestamp'', JStr ''{{ new Date().toISOString() }}''),
                (''node_id'', JStr (n_id node)),
                (''node_name'', JStr (n_name node)),
                (''workflow_name'', JStr workflow_name),
                (''execution_time'', JStr ''{{ $now - $nodeExecutionStart }}''),
                (''success'', JStr ''{{ $node.success }}''),
                (''item_count'', JStr ''{{ $input.all().length }}'')]),
         (''options'', JObj [(''dotNotation'', JBool True)])],
      credentials = None, retries = 3, retry_on_fail = True\<rparr>"

definition error_shadow :: "string \<Rightarrow> nat \<Rightarrow> N8nNode \<Rightarrow> N8nNode" where
  "error_shadow workflow_name i node =
     \<lparr>n_id = ''error_'' @ n_id node @ ''_'' @ show_nat i, n_name = ''error__'' @ n_name node,
      n_type = ''n8n-nodes-base.webhook'',
      position = \<lparr>pos_x = pos_x (position node), pos_y = pos_y (position node) + 300\<rparr>,
      parameters =
        [(''path'', JStr ''/error-handler''),
         (''httpMethod'', JStr ''POST''),
         (''responseMode'', JStr ''onReceived''),
         (''errorData'',
          JObj [(''original_node'', JStr (n_name node)),
                (''workflow_name'', JStr workflow_name),
                (''timestamp'', JStr ''{{ new Date().toISOString() }}''),
                (''error_message'', JStr ''{{ $json.error }}''),
                (''input_data'', JStr ''{{ $json.input }}'')])],
      credentials = None, retries = 3, retry_on_fail = True\<rparr>"

section \<open>Example inputs\<close>

text \<open>A node as the constructor's defaults leave it, and the same node with no retries.\<close>

definition compliant_node :: N8nNode where
  "compliant_node =
     \<lparr>n_id = ''a'', n_name = ''fetch_rows'', n_type = ''n8n-nodes-base.set'',
      position = \<lparr>pos_x = 0, pos_y = 0\<rparr>, parameters = [], credentials = None,
      retries = 3, retry_on_fail = True\<rparr>"

definition unconfigured_node :: N8nNode where
  "unconfigured_node = compliant_node\<lparr>n_id := ''b'', retries := 0, retry_on_fail := False\<rparr>"

definition retry_workflow :: N8nWorkflow where
  "retry_workflow =
     \<lparr>w_name = ''retry_demo'', nodes = [compliant_node, unconfigured_node], connections = [],
      settings = [], w_id = None, active = False, tags = []\<rparr>"

text \<open>The workflow that the constructor builds from the node with no retries.\<close>

definition zero_retry_workflow :: N8nWorkflow where
  "zero_retry_workflow =
     \<lparr>w_name = ''retry_demo'', nodes = [unconfigured_node], connections = [],
      settings = [], w_id = None, active = False, tags = []\<rparr>"

text \<open>A webhook node, and a workflow of three nodes with names that are not in normal form.\<close>

definition webhook_node :: N8nNode where
  "webhook_node =
     \<lparr>n_id = ''w1'', n_name = ''trigger'', n_type = ''n8n-nodes-base.webhook'',
      position = \<lparr>pos_x = 0, pos_y = 0\<rparr>, parameters = [], credentials = None,
      retries = 3, retry_on_fail = True\<rparr>"

definition webhook_workflow :: N8nWorkflow where
  "webhook_workflow =
     \<lparr>w_name = ''intake'', nodes = [webhook_node], connections = [],
      settings = [], w_id = None, active = False, tags = []\<rparr>"

definition slack_workflow :: N8nWorkflow where
  "slack_workflow =
     \<lparr>w_name = ''Notify Team'',
      nodes = [webhook_node\<lparr>n_name := ''Send Alert!'', n_type := ''n8n-nodes-base.slack''\<rparr>,
               webhook_node\<lparr>n_name := ''slack hook'', n_type := ''n8n-nodes-base.webhook''\<rparr>,
               webhook_node\<lparr>n_name := ''Set-Fields'', n_type := ''n8n-nodes-base.set''\<rparr>],
      connections = [], settings = [], w_id = None, active = False, tags = []\<rparr>"

text \<open>
  An instance of the library parameters, to evaluate the examples: none of the example
  values holds a float, a numeric string, an integer beyond \<open>2 ^ 53\<close> or a destination
  that is not a string.
\<close>

definition example_lib :: pylib where
  "example_lib =
     \<lparr>float_repr = (\<lambda>r. ''0.0''), py_str = (\<lambda>v. ''None''),
      md5_hexdigest = (\<lambda>s. ''d41d8cd98f00b204e9800998ecf8427e''),
      parse_float = (\<lambda>s. None), int_to_float = (\<lambda>i. None)\<rparr>"

text \<open>The workflow that the constructor builds from the compliant node.\<close>

definition constructed_workflow :: N8nWorkflow where
  "constructed_workflow =
     \<lparr>w_name = ''retry_demo'', nodes = [compliant_node], connections = [],
      settings = [], w_id = None, active = False, tags = []\<rparr>"

text \<open>Nodes and workflows for the secret scan.\<close>

definition secret_node :: "string \<Rightarrow> dict \<Rightarrow> N8nNode" where
  "secret_node nm ps =
     \<lparr>n_id = nm, n_name = nm, n_type = ''n8n-nodes-base.httpRequest'',
      position = \<lparr>pos_x = 0, pos_y = 0\<rparr>, parameters = ps, credentials = None,
      retries = 3, retry_on_fail = True\<rparr>"

definition secret_workflow :: "N8nNode list \<Rightarrow> N8nWorkflow" where
  "secret_workflow ns =
     \<lparr>w_name = ''secrets_demo'', nodes = ns, connections = [], settings = [], w_id = None,
      active = False, tags = []\<rparr>"







text \<open>
  The end-to-end scenario: a vault of two templates, \<open>A\<close> with one webhook node and
  \<open>B\<close> with one slack node, neither with parameters or connections, and an opportunity
  titled \<open>Lead Capture\<close>.
\<close>

definition template_A :: json where
  "template_A =
     JObj [(''name'', JStr ''A''),
           (''nodes'', JArr [JObj [(''id'', JStr ''a1''), (''name'', JStr ''trigger''),
                                   (''type'', JStr ''n8n-nodes-base.webhook''),
                                   (''position'', JArr [JInt 0, JInt 0]),
                                   (''parameters'', JObj [])]]),
           (''connections'', JObj [])]"

definition template_B :: json where
  "template_B =
     JObj [(''name'', JStr ''B''),
           (''nodes'', JArr [JObj [(''id'', JStr ''b1''), (''name'', JStr ''notify''),
                                   (''type'', JStr ''n8n-nodes-base.slack''),
                                   (''position'', JArr [JInt 0, JInt 0]),
                                   (''parameters'', JObj [])]]),
           (''connections'', JObj [])]"

definition lead_vault :: vault where
  "lead_vault = [''A'' \<mapsto> Parsed template_A, ''B'' \<mapsto> Parsed template_B]"

definition lead_opportunity :: AutomationOpportunity where
  "lead_opportunity = \<lparr>title = ''Lead Capture''\<rparr>"

text \<open>What \<open>from_n8n_json\<close> makes of the two templates.\<close>

definition node_A :: N8nNode where
  "node_A =
     \<lparr>n_id = ''a1'', n_name = ''trigger'', n_type = ''n8n-nodes-base.webhook'',
      position = \<lparr>pos_x = 0, pos_y = 0\<rparr>, parameters = [], credentials = None,
      retries = 3, retry_on_fail = True\<rparr>"

definition node_B :: N8nNode where
  "node_B =
     \<lparr>n_id = ''b1'', n_name = ''notify'', n_type = ''n8n-nodes-base.slack'',
      position = \<lparr>pos_x = 0, pos_y = 0\<rparr>, parameters = [], credentials = None,
      retries = 3, retry_on_fail = True\<rparr>"

definition workflow_A :: N8nWorkflow where
  "workflow_A =
     \<lparr>w_name = ''a'', nodes = [node_A], connections = [], settings = [], w_id = None,
      active = False, tags = []\<rparr>"

definition workflow_B :: N8nWorkflow where
  "workflow_B =
     \<lparr>w_name = ''b'', nodes = [node_B], connections = [], settings = [], w_id = None,
      active = False, tags = []\<rparr>"

text \<open>
  The two nodes after combination and renaming, and the workflow assembled from them: the
  two nodes, a logging node for each, and an error handler for each of these four.
\<close>

definition lead_webhook :: N8nNode where
  "lead_webhook = node_A\<lparr>n_name := ''webhook_trigger''\<rparr>"

definition lead_slack :: N8nNode where
  "lead_slack =
     node_B\<lparr>n_id := ''b_b1'', n_name := ''slack_b_notify'',
            position := \<lparr>pos_x = 400, pos_y = 0\<rparr>\<rparr>"

definition lead_assembled :: N8nWorkflow where
  "lead_assembled =
     \<lparr>w_name = ''lead_capture_automation'',
      nodes = [lead_webhook, lead_slack,
               log_shadow ''lead_capture_automation'' 0 lead_webhook,
               log_shadow ''lead_capture_automation'' 1 lead_slack,
               error_shadow ''lead_capture_automation'' 0 lead_webhook,
               error_shadow ''lead_capture_automation'' 1 lead_slack,
               error_shadow ''lead_capture_automation'' 2
                 (log_shadow ''lead_capture_automation'' 0 lead_webhook),
               error_shadow ''lead_capture_automation'' 3
                 (log_shadow ''lead_capture_automation'' 1 lead_slack)],
      connections = [], settings = [], w_id = None, active = False, tags = []\<rparr>"

text \<open>
  The same vault, the slack node of template \<open>B\<close> now having a parameter that refers
  to the environment variable \<open>NOTION_TOKEN\<close>.
\<close>

definition template_N :: json where
  "template_N =
     JObj [(''name'', JStr ''B''),
           (''nodes'', JArr [JObj [(''id'', JStr ''b1''), (''name'', JStr ''notify''),
                                   (''type'', JStr ''n8n-nodes-base.slack''),
                                   (''position'', JArr [JInt 0, JInt 0]),
                                   (''parameters'',
                                      JObj [(''text'', JStr ''${{ $env.NOTION_TOKEN }}'')])]]),
           (''connections'', JObj [])]"

definition notion_vault :: vault where
  "notion_vault = [''A'' \<mapsto> Parsed template_A, ''B'' \<mapsto> Parsed template_N]"

definition node_N :: N8nNode where
  "node_N = node_B\<lparr>parameters := [(''text'', JStr ''${{ $env.NOTION_TOKEN }}'')]\<rparr>"

definition workflow_N :: N8nWorkflow where
  "workflow_N = workflow_B\<lparr>nodes := [node_N]\<rparr>"

section \<open>Properties\<close>

subsection \<open>Names in normal form\<close>

lemma lower_char_snake_all: "list_all (\<lambda>c. lower_char c = c) snake_chars"
  by (simp add: snake_chars_def lower_alphabet_def digit_chars_def lower_char_def latin_upper_def latin_lower_def
      upper_alphabet_def)

lemma lower_char_snake: "c \<in> set snake_chars \<Longrightarrow> lower_char c = c"
  using lower_char_snake_all by (simp add: list_all_iff)

lemma lower_snake: "list_all (\<lambda>c. c \<in> set snake_chars) s \<Longrightarrow> lower s = s"
  by (induction s) (simp_all add: lower_def lower_char_snake)

lemma sub_runs_none: "\<forall>c \<in> set s. \<not> P c \<Longrightarrow> sub_runs P s = s"
  by (induction s) simp_all

lemma sep_not_snake_all: "list_all (\<lambda>c. \<not> is_sep c) snake_chars"
  by (simp add: snake_chars_def lower_alphabet_def digit_chars_def is_sep_def is_space_def)

lemma sep_not_snake: "c \<in> set snake_chars \<Longrightarrow> \<not> is_sep c"
  using sep_not_snake_all by (simp add: list_all_iff)

lemma snake_not_space_hyphen_all:
  "list_all (\<lambda>c. c \<noteq> CHR '' '' \<and> c \<noteq> CHR ''-'') snake_chars"
  by (simp add: snake_chars_def lower_alphabet_def digit_chars_def)

lemma snake_not_space_hyphen: "c \<in> set snake_chars \<Longrightarrow> c \<noteq> CHR '' '' \<and> c \<noteq> CHR ''-''"
  using snake_not_space_hyphen_all by (simp add: list_all_iff)

lemma sub_runs_no_double:
  "no_double_underscore s \<Longrightarrow> sub_runs is_underscore s = s"
proof (induction s rule: no_double_underscore.induct)
  case 1
  then show ?case by simp
next
  case (2 a)
  then show ?case by (simp add: is_underscore_def)
next
  case (3 a b cs)
  then show ?case by (auto simp: is_underscore_def)
qed

lemma sub_runs_hd:
  "s \<noteq> [] \<Longrightarrow> \<not> P (hd s) \<Longrightarrow> sub_runs P s \<noteq> [] \<and> hd (sub_runs P s) = hd s"
  by (cases s) auto

lemma no_double_sub_runs: "no_double_underscore (sub_runs is_underscore s)"
proof (induction is_underscore s rule: sub_runs.induct)
  case 1
  then show ?case by simp
next
  case (2 c cs)
  show ?case
  proof (cases "is_underscore c")
    case True
    let ?r = "dropWhile is_underscore cs"
    have ih: "no_double_underscore (sub_runs is_underscore ?r)" using 2 True by simp
    show ?thesis
    proof (cases ?r)
      case Nil
      then show ?thesis using True by (simp del: dropWhile_eq_Nil_conv)
    next
      case (Cons d ds)
      then have "\<not> is_underscore d" using hd_dropWhile [of is_underscore cs] by auto
      then obtain e es where e: "sub_runs is_underscore ?r = e # es" "e = d"
        using Cons by auto
      then show ?thesis using True ih \<open>\<not> is_underscore d\<close> by (simp add: is_underscore_def)
    qed
  next
    case False
    then have ih: "no_double_underscore (sub_runs is_underscore cs)" using 2 by simp
    show ?thesis
    proof (cases "sub_runs is_underscore cs")
      case Nil
      then show ?thesis using False by simp
    next
      case (Cons e es)
      then show ?thesis using False ih by (simp add: is_underscore_def)
    qed
  qed
qed

lemma no_double_append:
  "no_double_underscore (xs @ ys) \<longleftrightarrow>
     no_double_underscore xs \<and> no_double_underscore ys
     \<and> \<not> (xs \<noteq> [] \<and> ys \<noteq> [] \<and> last xs = CHR ''_'' \<and> hd ys = CHR ''_'')"
proof (induction xs rule: no_double_underscore.induct)
  case 1
  then show ?case by simp
next
  case (2 a)
  then show ?case by (cases ys) auto
next
  case (3 a b cs)
  then show ?case by auto
qed

lemma no_double_rev: "no_double_underscore (rev s) = no_double_underscore s"
proof (induction s)
  case Nil
  then show ?case by simp
next
  case (Cons a s)
  then show ?case by (cases s) (auto simp: no_double_append last_rev)
qed

lemma no_double_dropWhile:
  "no_double_underscore s \<Longrightarrow> no_double_underscore (dropWhile P s)"
proof -
  assume a: "no_double_underscore s"
  have "s = takeWhile P s @ dropWhile P s" by simp
  then have "no_double_underscore (takeWhile P s @ dropWhile P s)" using a by simp
  then show ?thesis by (simp only: no_double_append)
qed

lemma no_double_strip:
  "no_double_underscore s \<Longrightarrow> no_double_underscore (strip_underscores s)"
  by (simp add: strip_underscores_def no_double_rev no_double_dropWhile)

lemma last_dropWhile: "dropWhile P s \<noteq> [] \<Longrightarrow> last (dropWhile P s) = last s"
  by (induction s) (auto split: if_splits)

lemma strip_ends:
  "strip_underscores s \<noteq> [] \<Longrightarrow>
     hd (strip_underscores s) \<noteq> CHR ''_'' \<and> last (strip_underscores s) \<noteq> CHR ''_''"
proof -
  let ?u = "dropWhile is_underscore s"
  let ?v = "dropWhile is_underscore (rev ?u)"
  assume "strip_underscores s \<noteq> []"
  then have v: "?v \<noteq> []" by (simp add: strip_underscores_def)
  have u: "?u \<noteq> []"
  proof
    assume "?u = []"
    then have "?v = []" by (simp del: dropWhile_eq_Nil_conv)
    then show False using v by simp
  qed
  have "\<not> is_underscore (hd ?v)" using v hd_dropWhile by blast
  then have l: "last (rev ?v) \<noteq> CHR ''_''" using v by (simp add: last_rev is_underscore_def)
  have "last ?v = last (rev ?u)" using v by (rule last_dropWhile)
  also have "\<dots> = hd ?u" using u by (simp add: last_rev)
  finally have "hd (rev ?v) = hd ?u" using v by (simp add: hd_rev)
  moreover have "\<not> is_underscore (hd ?u)" using u hd_dropWhile by blast
  ultimately show ?thesis using l by (simp add: strip_underscores_def is_underscore_def)
qed

lemma set_sub_runs: "set (sub_runs P s) \<subseteq> insert CHR ''_'' (set s)"
proof (induction P s rule: sub_runs.induct)
  case (1 P)
  then show ?case by simp
next
  case (2 P c cs)
  have d: "set (dropWhile P cs) \<subseteq> set cs" by (meson set_dropWhileD subsetI)
  show ?case
  proof (cases "P c")
    case True
    then have "set (sub_runs P (dropWhile P cs)) \<subseteq> insert CHR ''_'' (set (dropWhile P cs))"
      using 2 by simp
    then have "set (sub_runs P (dropWhile P cs)) \<subseteq> insert CHR ''_'' (set cs)"
      using d by blast
    then show ?thesis using True by auto
  next
    case False
    then have "set (sub_runs P cs) \<subseteq> insert CHR ''_'' (set cs)" using 2 by simp
    then show ?thesis using False by auto
  qed
qed

lemma set_strip: "set (strip_underscores s) \<subseteq> set s"
proof -
  have "set (strip_underscores s) \<subseteq> set (dropWhile is_underscore s)"
    unfolding strip_underscores_def using set_dropWhileD by fastforce
  then show ?thesis using set_dropWhileD by fastforce
qed

lemma underscore_snake: "CHR ''_'' \<in> set snake_chars"
  by (simp add: snake_chars_def)

lemma snake_case_strip_sub_runs:
  assumes "set s \<subseteq> set snake_chars"
  shows "snake_case (strip_underscores (sub_runs is_underscore s))"
proof -
  have "set (strip_underscores (sub_runs is_underscore s)) \<subseteq> set snake_chars"
    using set_strip set_sub_runs [of is_underscore s] assms underscore_snake by blast
  then show ?thesis
    using strip_ends [of "sub_runs is_underscore s"]
    by (auto simp: snake_case_def list_all_iff no_double_strip no_double_sub_runs)
qed

lemma snake_case_normalize_name: "snake_case (normalize_name s) \<and> normalize_name s \<noteq> []"
proof -
  have u: "snake_case ''unnamed''"
    by (simp add: snake_case_def snake_chars_def lower_alphabet_def)
  have "snake_case (strip_underscores (sub_runs is_underscore
          (filter (\<lambda>c. c \<in> set snake_chars) (sub_runs is_sep (lower s)))))"
    by (rule snake_case_strip_sub_runs) auto
  then show ?thesis using u by (simp add: normalize_name_def Let_def)
qed

lemma snake_case_validate_workflow_naming: "snake_case (validate_workflow_naming s)"
  unfolding validate_workflow_naming_def Let_def
  by (rule snake_case_strip_sub_runs) (auto simp: underscore_snake)

lemma strip_snake: "snake_case s \<Longrightarrow> strip_underscores s = s"
proof (cases "s = []")
  case True
  then show ?thesis by (simp add: strip_underscores_def)
next
  case False
  assume "snake_case s"
  then have h: "hd s \<noteq> CHR ''_''" "last s \<noteq> CHR ''_''" using False by (auto simp: snake_case_def)
  have 1: "dropWhile is_underscore s = s"
    using h False by (cases s) (auto simp: is_underscore_def)
  have 2: "dropWhile is_underscore (rev s) = rev s"
    using h False by (cases "rev s") (auto simp: is_underscore_def last_rev hd_rev)
  show ?thesis by (simp add: strip_underscores_def 1 2)
qed

lemma snake_case_chars: "snake_case s \<Longrightarrow> list_all (\<lambda>c. c \<in> set snake_chars) s"
  by (simp add: snake_case_def)

lemma normalize_name_snake:
  assumes "snake_case s" "s \<noteq> []"
  shows "normalize_name s = s"
proof -
  have c: "list_all (\<lambda>c. c \<in> set snake_chars) s" using assms by (simp add: snake_case_def)
  have 1: "lower s = s" using c by (rule lower_snake)
  have 2: "sub_runs is_sep s = s"
    using c by (intro sub_runs_none) (auto simp: list_all_iff sep_not_snake)
  have 3: "filter (\<lambda>c. c \<in> set snake_chars) s = s"
    using c by (auto simp: list_all_iff intro: filter_True)
  have 4: "sub_runs is_underscore s = s"
    using assms by (intro sub_runs_no_double) (simp add: snake_case_def)
  show ?thesis using assms by (simp add: normalize_name_def Let_def 1 2 3 4 strip_snake)
qed

lemma validate_workflow_naming_snake:
  assumes "snake_case s"
  shows "validate_workflow_naming s = s"
proof -
  have c: "list_all (\<lambda>c. c \<in> set snake_chars) s" using assms by (simp add: snake_case_def)
  have 1: "lower s = s" using c by (rule lower_snake)
  have 2: "replace_char CHR ''-'' CHR ''_'' (replace_char CHR '' '' CHR ''_'' s) = s"
    using c by (induction s) (simp_all add: replace_char_def snake_not_space_hyphen)
  have 3: "map (\<lambda>c. if c \<in> set snake_chars then c else CHR ''_'') s = s"
    using c by (induction s) simp_all
  have 4: "sub_runs is_underscore s = s"
    using assms by (intro sub_runs_no_double) (simp add: snake_case_def)
  show ?thesis using assms by (simp add: validate_workflow_naming_def Let_def 1 2 3 4 strip_snake)
qed

subsection \<open>Naming conventions\<close>

lemmas char_class_defs =
  lower_def lower_char_def latin_upper_def latin_lower_def upper_alphabet_def lower_alphabet_def
  digit_chars_def snake_chars_def
  is_sep_def is_space_def is_underscore_def strip_underscores_def replace_char_def

lemmas prefix_defs =
  add_integration_prefix_def has_known_prefix_def known_prefixes_def type_prefixes_def
  split_first_def startswith_def

text \<open>
  Claim C1, as stated, fails for a node of webhook kind: \<open>webhook_\<close> is in the table of
  prefixes but not among the prefixes that \<open>_add_integration_prefix\<close> looks for before it
  adds one, so every application prepends \<open>webhook_\<close> again.
\<close>

theorem enforce_naming_counterexample:
  "map n_name (nodes (enforce_naming_conventions webhook_workflow)) = [''webhook_trigger'']
   \<and> map n_name (nodes (enforce_naming_conventions (enforce_naming_conventions webhook_workflow)))
       = [''webhook_webhook_trigger'']"
  by (simp add: webhook_workflow_def webhook_node_def enforce_naming_conventions_def
      enforce_node_def normalize_name_def prefix_defs char_class_defs Let_def)

lemma known_prefix_shape_all:
  "list_all (\<lambda>p. list_all (\<lambda>c. c \<in> set snake_chars) p \<and> no_double_underscore p \<and> p \<noteq> []
         \<and> hd p \<noteq> CHR ''_'' \<and> last p = CHR ''_''
         \<and> take (length (split_first p)) p = split_first p) known_prefixes"
  by (simp add: known_prefixes_def snake_chars_def lower_alphabet_def digit_chars_def split_first_def)

lemma known_prefix_shape:
  assumes "p \<in> set known_prefixes"
  shows "list_all (\<lambda>c. c \<in> set snake_chars) p \<and> no_double_underscore p \<and> p \<noteq> []
         \<and> hd p \<noteq> CHR ''_'' \<and> last p = CHR ''_''
         \<and> take (length (split_first p)) p = split_first p"
  using known_prefix_shape_all assms unfolding list_all_iff by blast

lemma snake_case_prefixed:
  assumes p: "p \<in> set known_prefixes" and t: "snake_case t" "t \<noteq> []"
  shows "snake_case (p @ t)"
  using known_prefix_shape [OF p] t
  by (auto simp: snake_case_def no_double_append)

lemma has_known_prefix_prefixed:
  assumes p: "p \<in> set known_prefixes"
  shows "has_known_prefix (p @ t)"
proof -
  have "length (split_first p) \<le> length p" by (simp add: split_first_def length_takeWhile_le)
  then have "take (length (split_first p)) (p @ t) = split_first p"
    using known_prefix_shape [OF p] by simp
  then show ?thesis using p by (auto simp: has_known_prefix_def startswith_def list_ex_iff)
qed

lemma type_prefix_known:
  assumes "map_of type_prefixes ty = Some p" "ty \<noteq> ''n8n-nodes-base.webhook''"
  shows "p \<in> set known_prefixes"
proof -
  have "(ty, p) \<in> set type_prefixes" using assms(1) by (rule map_of_SomeD)
  then have "(ty, p) \<in> set (butlast type_prefixes)"
    using assms(2) by (simp add: type_prefixes_def)
  then have "p \<in> snd ` set (butlast type_prefixes)" by force
  then show ?thesis by (simp add: type_prefixes_def known_prefixes_def)
qed

lemma type_prefix_nonempty: "map_of type_prefixes ty = Some p \<Longrightarrow> p \<noteq> []"
proof -
  assume "map_of type_prefixes ty = Some p"
  then have "(ty, p) \<in> set type_prefixes" by (rule map_of_SomeD)
  then have "p \<in> snd ` set type_prefixes" by force
  then show ?thesis by (auto simp add: type_prefixes_def)
qed

lemma enforce_node_idem:
  assumes "n_type node = ''n8n-nodes-base.webhook'' \<longrightarrow> has_known_prefix (normalize_name (n_name node))"
  shows "enforce_node (enforce_node node) = enforce_node node"
proof -
  let ?t = "normalize_name (n_name node)"
  have t: "snake_case ?t" "?t \<noteq> []" using snake_case_normalize_name by simp_all
  show ?thesis
  proof (cases "has_known_prefix ?t")
    case True
    then have 1: "enforce_node node = node\<lparr>n_name := ?t\<rparr>"
      by (simp add: enforce_node_def add_integration_prefix_def Let_def)
    show ?thesis
      unfolding 1 using True by (simp add: enforce_node_def add_integration_prefix_def Let_def normalize_name_snake [OF t])
  next
    case False
    show ?thesis
    proof (cases "map_of type_prefixes (n_type node)")
      case None
      then have 1: "enforce_node node = node\<lparr>n_name := ?t\<rparr>"
        using False by (simp add: enforce_node_def add_integration_prefix_def Let_def)
      show ?thesis
        unfolding 1 using False None
        by (simp add: enforce_node_def add_integration_prefix_def Let_def normalize_name_snake [OF t])
    next
      case (Some p)
      have nw: "n_type node \<noteq> ''n8n-nodes-base.webhook''" using assms False by auto
      have p: "p \<in> set known_prefixes" using Some nw by (rule type_prefix_known)
      have pn: "p \<noteq> []" using Some by (rule type_prefix_nonempty)
      have 1: "enforce_node node = node\<lparr>n_name := p @ ?t\<rparr>"
        using False Some pn by (simp add: enforce_node_def add_integration_prefix_def Let_def)
      have 2: "normalize_name (p @ ?t) = p @ ?t"
        using snake_case_prefixed [OF p t] pn by (intro normalize_name_snake) simp_all
      show ?thesis
        unfolding 1 using has_known_prefix_prefixed [OF p, of ?t]
        by (simp add: enforce_node_def add_integration_prefix_def Let_def 2)
    qed
  qed
qed

lemma normalize_name_idem: "normalize_name (normalize_name s) = normalize_name s"
  using snake_case_normalize_name [of s] by (intro normalize_name_snake) simp_all

lemma type_prefix_shape_all:
  "list_all (\<lambda>p. list_all (\<lambda>c. c \<in> set snake_chars) p \<and> no_double_underscore p \<and> p \<noteq> []
         \<and> hd p \<noteq> CHR ''_'' \<and> last p = CHR ''_'') (map snd type_prefixes)"
  by (simp add: type_prefixes_def snake_chars_def lower_alphabet_def digit_chars_def)

lemma snake_case_type_prefixed:
  assumes p: "map_of type_prefixes ty = Some p" and t: "snake_case t" "t \<noteq> []"
  shows "snake_case (p @ t)"
proof -
  have "p \<in> set (map snd type_prefixes)"
    using map_of_SomeD [OF p] by force
  then have "list_all (\<lambda>c. c \<in> set snake_chars) p \<and> no_double_underscore p \<and> p \<noteq> []
         \<and> hd p \<noteq> CHR ''_'' \<and> last p = CHR ''_''"
    using type_prefix_shape_all unfolding list_all_iff by blast
  then show ?thesis using t by (auto simp: snake_case_def no_double_append)
qed

lemma enforce_node_snake:
  "snake_case (n_name (enforce_node node)) \<and> n_name (enforce_node node) \<noteq> []"
proof -
  let ?t = "normalize_name (n_name node)"
  have t: "snake_case ?t" "?t \<noteq> []" using snake_case_normalize_name by simp_all
  show ?thesis
  proof (cases "map_of type_prefixes (n_type node)")
    case None
    then show ?thesis using t by (simp add: enforce_node_def add_integration_prefix_def Let_def)
  next
    case (Some p)
    then show ?thesis
      using t snake_case_type_prefixed [OF Some t]
      by (simp add: enforce_node_def add_integration_prefix_def Let_def)
  qed
qed

lemma enforce_node_fields:
  "n_id (enforce_node node) = n_id node" "n_type (enforce_node node) = n_type node"
  "retries (enforce_node node) = retries node" "retry_on_fail (enforce_node node) = retry_on_fail node"
  "parameters (enforce_node node) = parameters node" "position (enforce_node node) = position node"
  by (simp_all add: enforce_node_def Let_def)

lemma webhook_not_known: "\<not> has_known_prefix (''webhook_'' @ t)"
  by (simp add: has_known_prefix_def known_prefixes_def split_first_def startswith_def)

lemma type_prefix_webhook: "map_of type_prefixes ''n8n-nodes-base.webhook'' = Some ''webhook_''"
  by (simp add: type_prefixes_def)

lemma enforce_webhook_node:
  assumes "n_type node = ''n8n-nodes-base.webhook''"
    "\<not> has_known_prefix (normalize_name (n_name node))"
  shows "n_name (enforce_node node) = ''webhook_'' @ normalize_name (n_name node)"
    and "n_name (enforce_node (enforce_node node)) = ''webhook_'' @ n_name (enforce_node node)"
proof -
  let ?t = "normalize_name (n_name node)"
  have t: "snake_case ?t" "?t \<noteq> []" using snake_case_normalize_name by simp_all
  show 1: "n_name (enforce_node node) = ''webhook_'' @ ?t"
    using assms by (simp add: enforce_node_def add_integration_prefix_def type_prefix_webhook)
  have s: "snake_case (''webhook_'' @ ?t)"
    using snake_case_type_prefixed [OF type_prefix_webhook t] .
  have n: "normalize_name (''webhook_'' @ ?t) = ''webhook_'' @ ?t"
    using s by (intro normalize_name_snake) simp_all
  have ty: "n_type (enforce_node node) = ''n8n-nodes-base.webhook''"
    using assms(1) by (simp add: enforce_node_fields)
  show "n_name (enforce_node (enforce_node node)) = ''webhook_'' @ n_name (enforce_node node)"
    using ty webhook_not_known [of ?t]
    by (simp add: enforce_node_def [of "enforce_node node"] add_integration_prefix_def 1 n
        type_prefix_webhook Let_def del: append.simps)
qed

lemma enforce_nodes_idem_iff:
  "map enforce_node (map enforce_node ns) = map enforce_node ns
   \<longleftrightarrow> (\<forall>node \<in> set ns. n_type node = ''n8n-nodes-base.webhook''
                \<longrightarrow> has_known_prefix (normalize_name (n_name node)))"
proof
  assume e: "map enforce_node (map enforce_node ns) = map enforce_node ns"
  show "\<forall>node \<in> set ns. n_type node = ''n8n-nodes-base.webhook''
                \<longrightarrow> has_known_prefix (normalize_name (n_name node))"
  proof (intro ballI impI, rule ccontr)
    fix node
    assume n: "node \<in> set ns" "n_type node = ''n8n-nodes-base.webhook''"
      "\<not> has_known_prefix (normalize_name (n_name node))"
    from e n(1) have "enforce_node (enforce_node node) = enforce_node node" by simp
    then have "n_name (enforce_node (enforce_node node)) = n_name (enforce_node node)" by simp
    then show False using enforce_webhook_node(2) [OF n(2,3)] by simp
  qed
next
  assume "\<forall>node \<in> set ns. n_type node = ''n8n-nodes-base.webhook''
                \<longrightarrow> has_known_prefix (normalize_name (n_name node))"
  then show "map enforce_node (map enforce_node ns) = map enforce_node ns"
    by (induction ns) (simp_all add: enforce_node_idem)
qed

text \<open>
  Claim C1, amended: \<open>enforce_naming_conventions\<close> is idempotent exactly on the
  workflows in which each node of webhook kind has a normalised name that already starts
  with \<open>slack\<close>, \<open>hubspot\<close>, \<open>salesforce\<close>, \<open>gmail\<close> or \<open>notion\<close>, in particular on
  every workflow with no node of webhook kind. The second application never changes the
  workflow name, and it changes no node of another kind, also not the nodes that got the
  prefix \<open>slack_\<close>, \<open>hubspot_\<close>, \<open>salesforce_\<close>, \<open>gmail_\<close> or \<open>notion_\<close> from their
  kind. Every other node of webhook kind gets \<open>webhook_\<close> in front of its normalised
  name by the first application and once more by the second.
\<close>

theorem enforce_naming_conventions_idempotent:
  "(enforce_naming_conventions (enforce_naming_conventions W) = enforce_naming_conventions W
      \<longleftrightarrow> (\<forall>node \<in> set (nodes W). n_type node = ''n8n-nodes-base.webhook''
                   \<longrightarrow> has_known_prefix (normalize_name (n_name node))))
   \<and> w_name (enforce_naming_conventions (enforce_naming_conventions W))
       = w_name (enforce_naming_conventions W)
   \<and> (\<forall>node \<in> set (nodes W).
         n_type node = ''n8n-nodes-base.webhook'' \<and> \<not> has_known_prefix (normalize_name (n_name node))
         \<longrightarrow> n_name (enforce_node node) = ''webhook_'' @ normalize_name (n_name node)
             \<and> n_name (enforce_node (enforce_node node)) = ''webhook_'' @ n_name (enforce_node node))
   \<and> (\<forall>node \<in> set (nodes W).
         n_type node \<noteq> ''n8n-nodes-base.webhook'' \<or> has_known_prefix (normalize_name (n_name node))
         \<longrightarrow> enforce_node (enforce_node node) = enforce_node node)"
proof (intro conjI ballI impI)
  have "enforce_naming_conventions (enforce_naming_conventions W) = enforce_naming_conventions W
        \<longleftrightarrow> map enforce_node (map enforce_node (nodes W)) = map enforce_node (nodes W)"
    by (cases W) (simp add: enforce_naming_conventions_def normalize_name_idem)
  then show "enforce_naming_conventions (enforce_naming_conventions W) = enforce_naming_conventions W
      \<longleftrightarrow> (\<forall>node \<in> set (nodes W). n_type node = ''n8n-nodes-base.webhook''
                   \<longrightarrow> has_known_prefix (normalize_name (n_name node)))"
    by (simp only: enforce_nodes_idem_iff)
next
  show "w_name (enforce_naming_conventions (enforce_naming_conventions W))
       = w_name (enforce_naming_conventions W)"
    by (simp add: enforce_naming_conventions_def normalize_name_idem)
next
  fix node :: N8nNode
  assume "n_type node = ''n8n-nodes-base.webhook'' \<and> \<not> has_known_prefix (normalize_name (n_name node))"
  then show "n_name (enforce_node node) = ''webhook_'' @ normalize_name (n_name node)"
    "n_name (enforce_node (enforce_node node)) = ''webhook_'' @ n_name (enforce_node node)"
    using enforce_webhook_node by blast+
next
  fix node :: N8nNode
  assume "n_type node \<noteq> ''n8n-nodes-base.webhook'' \<or> has_known_prefix (normalize_name (n_name node))"
  then show "enforce_node (enforce_node node) = enforce_node node"
    by (intro enforce_node_idem) blast
qed

lemma normalize_send_alert: "normalize_name ''Send Alert!'' = ''send_alert''"
  by (simp add: normalize_name_def char_class_defs)

lemma normalize_slack_hook: "normalize_name ''slack hook'' = ''slack_hook''"
  by (simp add: normalize_name_def char_class_defs)

lemma normalize_set_fields: "normalize_name ''Set-Fields'' = ''set_fields''"
  by (simp add: normalize_name_def char_class_defs)

lemma normalize_notify_team: "normalize_name ''Notify Team'' = ''notify_team''"
  by (simp add: normalize_name_def char_class_defs)

lemma slack_hook_known: "has_known_prefix ''slack_hook''"
  by (simp add: prefix_defs)

lemma enforce_slack_node: "n_name (enforce_node (webhook_node\<lparr>n_name := ''Send Alert!'', n_type := ''n8n-nodes-base.slack''\<rparr>)) = ''slack_send_alert''"
  by (simp add: enforce_node_def normalize_send_alert prefix_defs)

lemma enforce_hook_node: "n_name (enforce_node (webhook_node\<lparr>n_name := ''slack hook'', n_type := ''n8n-nodes-base.webhook''\<rparr>)) = ''slack_hook''"
  by (simp add: enforce_node_def normalize_slack_hook prefix_defs)

lemma enforce_set_node: "n_name (enforce_node (webhook_node\<lparr>n_name := ''Set-Fields'', n_type := ''n8n-nodes-base.set''\<rparr>)) = ''set_fields''"
  by (simp add: enforce_node_def normalize_set_fields prefix_defs)

lemma enforce_slack_workflow:
  "w_name (enforce_naming_conventions slack_workflow) = ''notify_team''
   \<and> map n_name (nodes (enforce_naming_conventions slack_workflow))
       = [''slack_send_alert'', ''slack_hook'', ''set_fields'']"
  by (simp add: enforce_naming_conventions_def slack_workflow_def normalize_notify_team
      enforce_slack_node enforce_hook_node enforce_set_node)

lemma slack_workflow_webhooks: "\<forall>node \<in> set (nodes slack_workflow). n_type node = ''n8n-nodes-base.webhook''
             \<longrightarrow> has_known_prefix (normalize_name (n_name node))"
  by (simp add: slack_workflow_def webhook_node_def normalize_slack_hook slack_hook_known)

lemma normalize_webhook_names:
  "normalize_name ''trigger'' = ''trigger''"
  "normalize_name (''sl'' @ [CHR 0xA0] @ ''ack'') = ''sl_ack''"
  by (simp_all add: normalize_name_def char_class_defs)

lemma webhook_names_unknown: "\<not> has_known_prefix ''trigger''" "\<not> has_known_prefix ''sl_ack''"
  by (simp_all add: prefix_defs)

theorem enforce_naming_conventions_idempotent_witness:
  "enforce_naming_conventions (enforce_naming_conventions slack_workflow)
     = enforce_naming_conventions slack_workflow
   \<and> w_name (enforce_naming_conventions slack_workflow) = ''notify_team''
   \<and> map n_name (nodes (enforce_naming_conventions slack_workflow))
       = [''slack_send_alert'', ''slack_hook'', ''set_fields'']
   \<and> enforce_naming_conventions (enforce_naming_conventions webhook_workflow)
       \<noteq> enforce_naming_conventions webhook_workflow
   \<and> n_name (enforce_node (webhook_node\<lparr>n_name := ''sl'' @ [CHR 0xA0] @ ''ack''\<rparr>))
       = ''webhook_sl_ack''
   \<and> n_name (enforce_node (enforce_node (webhook_node\<lparr>n_name := ''sl'' @ [CHR 0xA0] @ ''ack''\<rparr>)))
       = ''webhook_webhook_sl_ack''"
proof -
  let ?n = "webhook_node\<lparr>n_name := ''sl'' @ [CHR 0xA0] @ ''ack''\<rparr>"
  let ?W = "webhook_workflow\<lparr>nodes := [?n]\<rparr>"
  have 1: "enforce_naming_conventions (enforce_naming_conventions slack_workflow)
     = enforce_naming_conventions slack_workflow"
    using enforce_naming_conventions_idempotent [of slack_workflow] slack_workflow_webhooks
    by blast
  have w: "\<not> (\<forall>node \<in> set (nodes webhook_workflow). n_type node = ''n8n-nodes-base.webhook''
                   \<longrightarrow> has_known_prefix (normalize_name (n_name node)))"
    by (simp add: webhook_workflow_def webhook_node_def normalize_webhook_names(1)
        webhook_names_unknown(1))
  have 2: "enforce_naming_conventions (enforce_naming_conventions webhook_workflow)
       \<noteq> enforce_naming_conventions webhook_workflow"
    using enforce_naming_conventions_idempotent [of webhook_workflow] w by blast
  have n: "?n \<in> set (nodes ?W)" "n_type ?n = ''n8n-nodes-base.webhook''"
    "\<not> has_known_prefix (normalize_name (n_name ?n))"
    by (simp_all add: webhook_node_def normalize_webhook_names(2) webhook_names_unknown(2)
        del: append.simps)
  from enforce_naming_conventions_idempotent [of ?W] n
  have 3: "n_name (enforce_node ?n) = ''webhook_'' @ normalize_name (n_name ?n)"
    and 4: "n_name (enforce_node (enforce_node ?n)) = ''webhook_'' @ n_name (enforce_node ?n)"
    by blast+
  have 5: "n_name (enforce_node ?n) = ''webhook_sl_ack''"
    unfolding 3 by (simp add: normalize_webhook_names(2) del: append.simps)
  have 6: "n_name (enforce_node (enforce_node ?n)) = ''webhook_webhook_sl_ack''"
    unfolding 4 5 by simp
  show ?thesis
    using 1 2 5 6 enforce_slack_workflow by blast
qed

subsection \<open>Retry injection\<close>

text \<open>
  Claim C8, as stated, fails: a node that already has \<open>retries = 3\<close> and
  \<open>retry_on_fail = True\<close> is skipped by the guard at the head of the loop, so the three
  parameters are not added to it although none of them is present.
\<close>

theorem inject_retry_logic_counterexample:
  "retries compliant_node = 3 \<and> retry_on_fail compliant_node
   \<and> ''retryOnFail'' \<notin> fst ` set (parameters compliant_node)
   \<and> map_of (parameters (hd (nodes (inject_retry_logic retry_workflow)))) ''retryOnFail'' = None"
  by (simp add: inject_retry_logic_def inject_retry_node_def retry_workflow_def compliant_node_def)

text \<open>
  Claim C8, amended: \<open>inject_retry_logic\<close> keeps the number and order of the nodes and
  leaves every node with \<open>retries = 3\<close> and \<open>retry_on_fail = True\<close>. A node that already
  had both is returned unchanged, parameters included, whether or not they hold
  \<open>retryOnFail\<close>. A node whose parameters hold the key \<open>retryOnFail\<close> keeps its
  parameters. A node that was not compliant and has no key \<open>retryOnFail\<close> gets
  \<open>retryOnFail = True\<close>, \<open>maxTries = 3\<close> and \<open>waitBetweenTries = 200\<close> written into its
  parameters, every other key keeping its value.
\<close>

theorem inject_retry_logic_effect:
  "length (nodes (inject_retry_logic W)) = length (nodes W)
   \<and> (\<forall>i < length (nodes W).
        retries (nodes (inject_retry_logic W) ! i) = 3
        \<and> retry_on_fail (nodes (inject_retry_logic W) ! i)
        \<and> (retries (nodes W ! i) = 3 \<and> retry_on_fail (nodes W ! i)
             \<longrightarrow> nodes (inject_retry_logic W) ! i = nodes W ! i)
        \<and> (''retryOnFail'' \<in> fst ` set (parameters (nodes W ! i))
             \<longrightarrow> parameters (nodes (inject_retry_logic W) ! i) = parameters (nodes W ! i))
        \<and> (\<not> (retries (nodes W ! i) = 3 \<and> retry_on_fail (nodes W ! i))
             \<and> ''retryOnFail'' \<notin> fst ` set (parameters (nodes W ! i))
             \<longrightarrow> map_of (parameters (nodes (inject_retry_logic W) ! i))
                   = (map_of (parameters (nodes W ! i)))
                       (''retryOnFail'' \<mapsto> JBool True, ''maxTries'' \<mapsto> JInt 3,
                        ''waitBetweenTries'' \<mapsto> JInt 200)))"
  by (auto simp: inject_retry_logic_def inject_retry_node_def update_conv')

theorem inject_retry_logic_effect_witness:
  "nodes (inject_retry_logic retry_workflow) ! 0 = compliant_node
   \<and> retries (nodes (inject_retry_logic retry_workflow) ! 1) = 3
   \<and> retry_on_fail (nodes (inject_retry_logic retry_workflow) ! 1)
   \<and> parameters (nodes (inject_retry_logic retry_workflow) ! 1)
       = [(''retryOnFail'', JBool True), (''maxTries'', JInt 3), (''waitBetweenTries'', JInt 200)]"
proof -
  have len: "(1::nat) < length (nodes retry_workflow)" "(0::nat) < length (nodes retry_workflow)"
    by (simp_all add: retry_workflow_def)
  have a: "nodes retry_workflow ! 0 = compliant_node" "nodes retry_workflow ! 1 = unconfigured_node"
    by (simp_all add: retry_workflow_def)
  from inject_retry_logic_effect [of retry_workflow] len a
  have "nodes (inject_retry_logic retry_workflow) ! 0 = compliant_node"
    and "retries (nodes (inject_retry_logic retry_workflow) ! 1) = 3"
    and "retry_on_fail (nodes (inject_retry_logic retry_workflow) ! 1)"
    by (auto simp: compliant_node_def)
  moreover have "parameters (nodes (inject_retry_logic retry_workflow) ! 1)
       = [(''retryOnFail'', JBool True), (''maxTries'', JInt 3), (''waitBetweenTries'', JInt 200)]"
    by (simp add: inject_retry_logic_def inject_retry_node_def retry_workflow_def
        unconfigured_node_def compliant_node_def)
  ultimately show ?thesis by simp
qed

subsection \<open>Construction\<close>

lemma N8nNode_new_Inr:
  "N8nNode_new i nm ty pos ps cr r rof = Inr node \<Longrightarrow>
     r = 3 \<and> validate_naming_convention nm = Inr nm
     \<and> node = \<lparr>n_id = i, n_name = nm, n_type = ty, position = pos, parameters = ps,
                credentials = cr, retries = 3, retry_on_fail = rof\<rparr>"
  by (auto simp: N8nNode_new_def Let_def field_errors_def validate_retry_count_def
      validate_naming_convention_def split: if_splits sum.splits)

lemma N8nWorkflow_new_Inr:
  "N8nWorkflow_new nm ns cs ss i a ts = Inr W \<longleftrightarrow>
     ns \<noteq> [] \<and> W = \<lparr>w_name = validate_workflow_naming nm, nodes = ns, connections = cs,
                   settings = ss, w_id = i, active = a, tags = ts\<rparr>"
  by (auto simp: N8nWorkflow_new_def Let_def field_errors_def validate_required_nodes_def)

lemma valid_chars_fetch_rows: "validate_naming_convention ''fetch_rows'' = Inr ''fetch_rows''"
  by (simp add: validate_naming_convention_def valid_chars_def special_chars_def isupper_def latin_upper_def
      upper_alphabet_def lower_alphabet_def digit_chars_def)

lemma construct_compliant_node:
  "N8nNode_new ''a'' ''fetch_rows'' ''n8n-nodes-base.set'' \<lparr>pos_x = 0, pos_y = 0\<rparr> [] None 3 True
     = Inr compliant_node"
  by (simp add: N8nNode_new_def valid_chars_fetch_rows field_errors_def validate_retry_count_def
      compliant_node_def)

lemma workflow_naming_retry_demo: "validate_workflow_naming ''retry_demo'' = ''retry_demo''"
  by (simp add: validate_workflow_naming_def char_class_defs)

lemma construct_workflow:
  "N8nWorkflow_new ''retry_demo'' [compliant_node] [] [] None False [] = Inr constructed_workflow"
  by (simp add: N8nWorkflow_new_Inr workflow_naming_retry_demo constructed_workflow_def)

lemma construct_zero_retry_workflow:
  "N8nWorkflow_new ''retry_demo'' [unconfigured_node] [] [] None False [] = Inr zero_retry_workflow"
  by (simp add: N8nWorkflow_new_Inr workflow_naming_retry_demo zero_retry_workflow_def)

lemma retry_logic_missing_iff:
  "result False ''logic'' RetryLogicMissing \<in> set (validate_business_logic W)
   \<longleftrightarrow> (\<forall>n \<in> set (nodes W). retries n \<le> 0)"
proof -
  have "filter (\<lambda>node. retries node > 0) (nodes W) = [] \<longleftrightarrow> (\<forall>n \<in> set (nodes W). retries n \<le> 0)"
    by (auto simp: filter_empty_conv)
  then show ?thesis
    by (auto simp: validate_business_logic_def Let_def result_def required_retry_logic_def
        required_error_handling_def)
qed

text \<open>
  Claim C9, as stated, fails: the validators of a node run in its constructor only. The
  retry count of a node can be assigned afterwards, as the repository's test of
  \<open>inject_retry_logic\<close> does with \<open>node.retries = 0\<close>, and the constructor of a workflow
  takes the nodes it is given as they are. So a workflow that the constructor returns can
  hold a node with no retries, and for it the validator reports
  \<open>Retry logic is missing from all nodes\<close>.
\<close>

theorem retry_logic_missing_counterexample:
  "N8nWorkflow_new ''retry_demo'' [unconfigured_node] [] [] None False [] = Inr zero_retry_workflow
   \<and> map retries (nodes zero_retry_workflow) = [0]
   \<and> validate_business_logic zero_retry_workflow ! 1 = result False ''logic'' RetryLogicMissing"
  using construct_zero_retry_workflow
  by (simp add: zero_retry_workflow_def unconfigured_node_def compliant_node_def
      validate_business_logic_def required_retry_logic_def)

text \<open>
  Claim C9, amended: a node that the constructor returns has \<open>retries = 3\<close>: any other
  value is refused with a \<open>ValidationError\<close> that lists the retry count, and a node built
  from JSON gets the default 3. The constructor of a workflow checks only that there is a
  node and takes the nodes as they are. The validator reports the failure
  \<open>Retry logic is missing from all nodes\<close> exactly for the workflows in which no node has
  \<open>retries > 0\<close>; so it does not report it for a workflow that the constructor returns
  from nodes that are as their constructor returned them, where every node has
  \<open>retries = 3\<close> and the second business-logic result is the passing one.
\<close>

theorem constructed_nodes_retry_three:
  "(N8nNode_new i nm ty pos ps cr r rof = Inr node \<longrightarrow> r = 3 \<and> retries node = 3)
   \<and> (r \<noteq> 3 \<longrightarrow> (\<exists>errs. N8nNode_new i nm ty pos ps cr r rof = Inl (ValidationError errs)
                        \<and> RetriesNotThree \<in> set errs))
   \<and> (N8nNode_of_json ji jn jt pos jp jc = Inr node' \<longrightarrow> retries node' = 3)
   \<and> (N8nWorkflow_new wn ns cs ss wi a ts = Inr W
        \<longleftrightarrow> ns \<noteq> [] \<and> W = \<lparr>w_name = validate_workflow_naming wn, nodes = ns, connections = cs,
                               settings = ss, w_id = wi, active = a, tags = ts\<rparr>)
   \<and> (result False ''logic'' RetryLogicMissing \<in> set (validate_business_logic U)
        \<longleftrightarrow> (\<forall>n \<in> set (nodes U). retries n \<le> 0))
   \<and> (N8nWorkflow_new wn ns cs ss wi a ts = Inr W
        \<and> (\<forall>n \<in> set ns. \<exists>i nm ty pos ps cr r rof. N8nNode_new i nm ty pos ps cr r rof = Inr n)
        \<longrightarrow> (\<forall>n \<in> set (nodes W). retries n = 3 \<and> retries n > 0)
            \<and> validate_business_logic W ! 1
                = result True ''logic'' (RetryLogicImplemented (length (nodes W)))
            \<and> result False ''logic'' RetryLogicMissing \<notin> set (validate_business_logic W))"
proof (intro conjI impI)
  assume "N8nNode_new i nm ty pos ps cr r rof = Inr node"
  from N8nNode_new_Inr [OF this] show "r = 3" "retries node = 3" by simp_all
next
  assume "r \<noteq> 3"
  then show "\<exists>errs. N8nNode_new i nm ty pos ps cr r rof = Inl (ValidationError errs)
                        \<and> RetriesNotThree \<in> set errs"
    by (simp add: N8nNode_new_def Let_def field_errors_def validate_retry_count_def)
next
  assume "N8nNode_of_json ji jn jt pos jp jc = Inr node'"
  then show "retries node' = 3"
    by (auto simp: N8nNode_of_json_def Let_def split: if_splits)
next
  show "N8nWorkflow_new wn ns cs ss wi a ts = Inr W
        \<longleftrightarrow> ns \<noteq> [] \<and> W = \<lparr>w_name = validate_workflow_naming wn, nodes = ns, connections = cs,
                               settings = ss, w_id = wi, active = a, tags = ts\<rparr>"
    by (rule N8nWorkflow_new_Inr)
next
  show "result False ''logic'' RetryLogicMissing \<in> set (validate_business_logic U)
        \<longleftrightarrow> (\<forall>n \<in> set (nodes U). retries n \<le> 0)"
    by (rule retry_logic_missing_iff)
next
  assume h: "N8nWorkflow_new wn ns cs ss wi a ts = Inr W
        \<and> (\<forall>n \<in> set ns. \<exists>i nm ty pos ps cr r rof. N8nNode_new i nm ty pos ps cr r rof = Inr n)"
  then have ns: "ns \<noteq> []" "nodes W = ns"
    by (simp_all add: N8nWorkflow_new_Inr)
  have r3: "\<forall>n \<in> set ns. retries n = 3"
    using h N8nNode_new_Inr by fastforce
  then have f: "filter (\<lambda>node. retries node > 0) ns = ns"
    by (auto intro: filter_True)
  show "\<forall>n \<in> set (nodes W). retries n = 3 \<and> retries n > 0"
    using r3 ns by simp
  show "validate_business_logic W ! 1
                = result True ''logic'' (RetryLogicImplemented (length (nodes W)))"
    using ns f by (simp add: validate_business_logic_def Let_def)
  show "result False ''logic'' RetryLogicMissing \<notin> set (validate_business_logic W)"
    using ns f by (simp add: validate_business_logic_def Let_def result_def)
qed

theorem constructed_nodes_retry_three_witness:
  "N8nNode_new ''a'' ''fetch_rows'' ''n8n-nodes-base.set'' \<lparr>pos_x = 0, pos_y = 0\<rparr> [] None 3 True
     = Inr compliant_node
   \<and> N8nWorkflow_new ''retry_demo'' [compliant_node] [] [] None False [] = Inr constructed_workflow
   \<and> retries compliant_node = 3
   \<and> validate_business_logic constructed_workflow ! 1
       = result True ''logic'' (RetryLogicImplemented 1)
   \<and> result False ''logic'' RetryLogicMissing \<notin> set (validate_business_logic constructed_workflow)
   \<and> result False ''logic'' RetryLogicMissing \<in> set (validate_business_logic zero_retry_workflow)
   \<and> result False ''logic'' RetryLogicMissing \<notin> set (validate_business_logic retry_workflow)"
proof -
  have c: "\<forall>n \<in> set [compliant_node]. \<exists>i nm ty pos ps cr r rof.
             N8nNode_new i nm ty pos ps cr r rof = Inr n"
  proof -
    have "\<exists>i nm ty pos ps cr r rof. N8nNode_new i nm ty pos ps cr r rof = Inr compliant_node"
      by (intro exI) (rule construct_compliant_node)
    then show ?thesis by simp
  qed
  have n: "length (nodes constructed_workflow) = 1" by (simp add: constructed_workflow_def)
  have z: "\<forall>n \<in> set (nodes zero_retry_workflow). retries n \<le> 0"
    by (simp add: zero_retry_workflow_def unconfigured_node_def)
  have y: "\<not> (\<forall>n \<in> set (nodes retry_workflow). retries n \<le> 0)"
    by (simp add: retry_workflow_def compliant_node_def)
  note t = constructed_nodes_retry_three
      [where i = "''a''" and nm = "''fetch_rows''" and ty = "''n8n-nodes-base.set''"
         and pos = "\<lparr>pos_x = 0, pos_y = 0\<rparr>" and ps = "[]" and cr = None and r = 3 and rof = True
         and node = compliant_node and wn = "''retry_demo''" and ns = "[compliant_node]"
         and cs = "[]" and ss = "[]" and wi = None and a = False and ts = "[]"
         and W = constructed_workflow]
  from t construct_compliant_node have r: "retries compliant_node = 3" by blast
  from t construct_workflow c
  have b: "validate_business_logic constructed_workflow ! 1
             = result True ''logic'' (RetryLogicImplemented (length (nodes constructed_workflow)))"
    and m: "result False ''logic'' RetryLogicMissing
              \<notin> set (validate_business_logic constructed_workflow)"
    by blast+
  have 1: "N8nNode_new ''a'' ''fetch_rows'' ''n8n-nodes-base.set'' \<lparr>pos_x = 0, pos_y = 0\<rparr> [] None 3 True
     = Inr compliant_node
   \<and> N8nWorkflow_new ''retry_demo'' [compliant_node] [] [] None False [] = Inr constructed_workflow
   \<and> retries compliant_node = 3
   \<and> validate_business_logic constructed_workflow ! 1
       = result True ''logic'' (RetryLogicImplemented 1)
   \<and> result False ''logic'' RetryLogicMissing \<notin> set (validate_business_logic constructed_workflow)"
    using construct_compliant_node construct_workflow r b [unfolded n] m by blast
  from constructed_nodes_retry_three
         [where U = zero_retry_workflow, THEN conjunct2, THEN conjunct2, THEN conjunct2,
          THEN conjunct2, THEN conjunct1] z
  have 2: "result False ''logic'' RetryLogicMissing \<in> set (validate_business_logic zero_retry_workflow)"
    by blast
  from constructed_nodes_retry_three
         [where U = retry_workflow, THEN conjunct2, THEN conjunct2, THEN conjunct2,
          THEN conjunct2, THEN conjunct1] y
  have 3: "result False ''logic'' RetryLogicMissing \<notin> set (validate_business_logic retry_workflow)"
    by blast
  show ?thesis using 1 2 3 by blast
qed

subsection \<open>Combining no workflow or one\<close>

lemma workflow_naming_lead_flow: "validate_workflow_naming ''Lead Flow'' = ''lead_flow''"
  by (simp add: validate_workflow_naming_def char_class_defs)

text \<open>
  Claim C7, as stated, fails for a combined name that is not in normal form: the clone is
  built by the constructor of \<open>N8nWorkflow\<close>, whose validator stores the name normalised,
  so the clone of a workflow under the name \<open>Lead Flow\<close> is named \<open>lead_flow\<close>.
\<close>

theorem combine_single_name_counterexample:
  "combine_workflows example_lib [retry_workflow] ''Lead Flow''
     = Inr \<lparr>w_name = ''lead_flow'', nodes = [compliant_node, unconfigured_node],
            connections = [], settings = [], w_id = None, active = False, tags = []\<rparr>
   \<and> ''lead_flow'' \<noteq> ''Lead Flow''"
  by (simp add: combine_workflows_def N8nWorkflow_new_def Let_def field_errors_def
      validate_required_nodes_def workflow_naming_lead_flow retry_workflow_def)

lemma validate_workflow_naming_fixed: "validate_workflow_naming nm = nm \<longleftrightarrow> snake_case nm"
  using snake_case_validate_workflow_naming [of nm] validate_workflow_naming_snake [of nm]
  by auto

text \<open>
  Claim C7, amended: \<open>combine_workflows\<close> of the empty list raises the processor's error,
  and of a single workflow with a node or more returns that workflow with nothing changed
  but the name: nodes, connections, settings, id, active flag and tags are those of the
  input. The name of the clone is the combined name as the constructor normalises it
  (\<open>validate_workflow_naming\<close>); it is the combined name itself exactly when that name is
  in normal form already. For a single workflow with no node the constructor raises its
  \<open>ValidationError\<close>.
\<close>

theorem combine_workflows_empty_and_single:
  "combine_workflows L [] combined_name = Inl CannotCombineEmpty
   \<and> is_processor_error CannotCombineEmpty
   \<and> (nodes W \<noteq> [] \<longrightarrow>
        combine_workflows L [W] combined_name
          = Inr (W\<lparr>w_name := validate_workflow_naming combined_name\<rparr>)
        \<and> (combine_workflows L [W] combined_name = Inr (W\<lparr>w_name := combined_name\<rparr>)
             \<longleftrightarrow> snake_case combined_name))
   \<and> (nodes W = [] \<longrightarrow>
        combine_workflows L [W] combined_name = Inl (ValidationError [NoNodes]))"
proof (cases W)
  case (fields wn ns cs ss wi a ts)
  then show ?thesis
    by (simp add: combine_workflows_def N8nWorkflow_new_def Let_def field_errors_def
        validate_required_nodes_def validate_workflow_naming_fixed)
qed

lemma snake_case_lead_flow: "snake_case ''lead_flow''"
  by (simp add: snake_case_def snake_chars_def lower_alphabet_def digit_chars_def)

theorem combine_workflows_empty_and_single_witness:
  "combine_workflows example_lib [] ''lead_flow'' = Inl CannotCombineEmpty
   \<and> combine_workflows example_lib [retry_workflow] ''lead_flow''
       = Inr \<lparr>w_name = ''lead_flow'', nodes = [compliant_node, unconfigured_node],
              connections = [], settings = [], w_id = None, active = False, tags = []\<rparr>
   \<and> combine_workflows example_lib [retry_workflow] ''Lead Flow''
       \<noteq> Inr (retry_workflow\<lparr>w_name := ''Lead Flow''\<rparr>)
   \<and> combine_workflows example_lib [retry_workflow\<lparr>nodes := []\<rparr>] ''lead_flow''
       = Inl (ValidationError [NoNodes])"
proof -
  have n: "nodes retry_workflow \<noteq> []" by (simp add: retry_workflow_def)
  have e: "nodes (retry_workflow\<lparr>nodes := []\<rparr>) = []" by simp
  have r: "retry_workflow\<lparr>w_name := ''lead_flow''\<rparr>
           = \<lparr>w_name = ''lead_flow'', nodes = [compliant_node, unconfigured_node],
              connections = [], settings = [], w_id = None, active = False, tags = []\<rparr>"
    by (simp add: retry_workflow_def)
  have u: "\<not> snake_case ''Lead Flow''"
    by (simp add: snake_case_def snake_chars_def lower_alphabet_def digit_chars_def)
  from combine_workflows_empty_and_single [of example_lib "''lead_flow''" retry_workflow]
  have 1: "combine_workflows example_lib [] ''lead_flow'' = Inl CannotCombineEmpty"
    and 2: "combine_workflows example_lib [retry_workflow] ''lead_flow''
           = Inr (retry_workflow\<lparr>w_name := ''lead_flow''\<rparr>)"
    using n snake_case_lead_flow by blast+
  from combine_workflows_empty_and_single [of example_lib "''Lead Flow''" retry_workflow]
  have 3: "combine_workflows example_lib [retry_workflow] ''Lead Flow''
       \<noteq> Inr (retry_workflow\<lparr>w_name := ''Lead Flow''\<rparr>)"
    using n u by blast
  from combine_workflows_empty_and_single
         [of example_lib "''lead_flow''" "retry_workflow\<lparr>nodes := []\<rparr>"]
  have 4: "combine_workflows example_lib [retry_workflow\<lparr>nodes := []\<rparr>] ''lead_flow''
       = Inl (ValidationError [NoNodes])"
    using e by blast
  show ?thesis using 1 2 [unfolded r] 3 4 by blast
qed

subsection \<open>The hardcoded-secret scan\<close>

lemma startswith_iff: "startswith s p \<longleftrightarrow> (\<exists>ys. s = p @ ys)"
proof
  assume "startswith s p"
  then have "s = p @ drop (length p) s"
    by (metis append_take_drop_id startswith_def)
  then show "\<exists>ys. s = p @ ys" ..
next
  assume "\<exists>ys. s = p @ ys"
  then show "startswith s p" by (auto simp: startswith_def)
qed

lemma contains_iff: "contains p s \<longleftrightarrow> (\<exists>xs ys. s = xs @ p @ ys)"
proof (induction s)
  case Nil
  then show ?case by auto
next
  case (Cons c cs)
  show ?case
  proof
    assume "contains p (c # cs)"
    then consider "startswith (c # cs) p" | "contains p cs" by auto
    then show "\<exists>xs ys. c # cs = xs @ p @ ys"
    proof cases
      case 1
      then obtain ys where "c # cs = p @ ys" by (auto simp: startswith_iff)
      then have "c # cs = [] @ p @ ys" by simp
      then show ?thesis by blast
    next
      case 2
      then obtain xs ys where "cs = xs @ p @ ys" using Cons by auto
      then have "c # cs = (c # xs) @ p @ ys" by simp
      then show ?thesis by blast
    qed
  next
    assume "\<exists>xs ys. c # cs = xs @ p @ ys"
    then obtain xs ys where e: "c # cs = xs @ p @ ys" by auto
    show "contains p (c # cs)"
    proof (cases xs)
      case Nil
      then have "startswith (c # cs) p" using e by (auto simp: startswith_iff)
      then show ?thesis by simp
    next
      case (Cons x xs')
      then have "cs = xs' @ p @ ys" using e by simp
      then have "contains p cs" using Cons.IH by blast
      then show ?thesis by simp
    qed
  qed
qed

lemma contains_embed: "contains p s \<Longrightarrow> contains p (a @ s @ b)"
proof -
  assume "contains p s"
  then obtain xs ys where "s = xs @ p @ ys" by (auto simp: contains_iff)
  then have "a @ s @ b = (a @ xs) @ p @ (ys @ b)" by simp
  then show ?thesis unfolding contains_iff by blast
qed

lemma contains_trans: "contains p q \<Longrightarrow> contains q s \<Longrightarrow> contains p s"
proof -
  assume "contains p q" "contains q s"
  then obtain a b where "s = a @ q @ b" by (auto simp: contains_iff)
  then show ?thesis using \<open>contains p q\<close> contains_embed by simp
qed


lemma escape_plain: "plain p \<Longrightarrow> concat (map escape_char p) = p"
  by (induction p) (simp_all add: plain_def)

lemma contains_json_string:
  assumes "plain p" "contains p s"
  shows "contains p (json_string s)"
proof -
  obtain xs ys where "s = xs @ p @ ys" using assms(2) by (auto simp: contains_iff)
  then have "json_string s
      = ([CHR 0x22] @ concat (map escape_char xs)) @ p @ (concat (map escape_char ys) @ [CHR 0x22])"
    by (simp add: json_string_def escape_plain [OF assms(1)])
  then show ?thesis unfolding contains_iff by blast
qed

lemma join_member: "x \<in> set xs \<Longrightarrow> \<exists>a b. join sep xs = a @ x @ b"
proof (induction sep xs rule: join.induct)
  case (1 sep)
  then show ?case by simp
next
  case (2 sep s)
  then have "join sep [s] = [] @ x @ []" by simp
  then show ?case by blast
next
  case (3 sep s t ss)
  show ?case
  proof (cases "x = s")
    case True
    then have "join sep (s # t # ss) = [] @ x @ (sep @ join sep (t # ss))" by simp
    then show ?thesis by blast
  next
    case False
    then have "x \<in> set (t # ss)" using 3 by simp
    then obtain a b where "join sep (t # ss) = a @ x @ b" using 3 by blast
    then have "join sep (s # t # ss) = (s @ sep @ a) @ x @ b" by simp
    then show ?thesis by blast
  qed
qed

lemma dumps_item:
  assumes "(k, v) \<in> set kvs"
  shows "contains (json_string k @ '': '' @ json_dumps L v) (json_dumps L (JObj kvs))"
proof -
  let ?f = "\<lambda>(k, v). json_string k @ '': '' @ json_dumps L v"
  have "?f (k, v) \<in> set (map ?f kvs)" using assms by (simp only: set_map) (rule imageI)
  then obtain a b where "join '', '' (map ?f kvs) = a @ ?f (k, v) @ b"
    using join_member by blast
  then have "json_dumps L (JObj kvs) = (''{'' @ a) @ ?f (k, v) @ (b @ ''}'')" by simp
  then show ?thesis unfolding contains_iff by (simp only: prod.case) blast
qed

lemma dumps_contains_key:
  assumes "(k, v) \<in> set kvs" "plain p" "contains p k"
  shows "contains p (json_dumps L (JObj kvs))"
proof -
  have "contains p (json_string k)" using assms(2,3) by (rule contains_json_string)
  then have "contains p ([] @ json_string k @ ('': '' @ json_dumps L v))" by (rule contains_embed)
  then have "contains p (json_string k @ '': '' @ json_dumps L v)" by simp
  then show ?thesis using dumps_item [OF assms(1)] contains_trans by blast
qed

lemma dumps_contains_string_value:
  assumes "(k, JStr v) \<in> set kvs" "plain p" "contains p v"
  shows "contains p (json_dumps L (JObj kvs))"
proof -
  have "contains p (json_string v)" using assms(2,3) by (rule contains_json_string)
  then have "contains p ((json_string k @ '': '') @ json_string v @ [])" by (rule contains_embed)
  then have "contains p (json_string k @ '': '' @ json_dumps L (JStr v))" by simp
  then show ?thesis using dumps_item [OF assms(1)] contains_trans by blast
qed

lemma plain_words: "plain ''password''" "plain ''token''" "plain ''{{''"
  by (simp_all add: plain_def escape_char_def)


lemma dumps_hunter2:
  "json_dumps L (JObj [(''password'', JStr ''hunter2'')])
     = ''{'' @ [CHR 0x22] @ ''password'' @ [CHR 0x22] @ '': '' @ [CHR 0x22] @ ''hunter2'' @ [CHR 0x22] @ ''}''"
  by (simp add: json_string_def escape_char_def)

lemma dumps_templated:
  "json_dumps L (JObj [(''password'', JStr ''{{ $env.PASS }}'')])
     = ''{'' @ [CHR 0x22] @ ''password'' @ [CHR 0x22] @ '': '' @ [CHR 0x22] @ ''{{ $env.PASS }}'' @ [CHR 0x22] @ ''}''"
  by (simp add: json_string_def escape_char_def)

lemma dumps_api_key:
  "json_dumps L (JObj [(''api_key'', JStr ''sk_live_abc123'')])
     = ''{'' @ [CHR 0x22] @ ''api_key'' @ [CHR 0x22] @ '': '' @ [CHR 0x22] @ ''sk_live_abc123'' @ [CHR 0x22] @ ''}''"
  by (simp add: json_string_def escape_char_def)

lemma secrets_hunter2:
  "parameters node = [(''password'', JStr ''hunter2'')] \<Longrightarrow>
     node_secrets L node = [HardcodedPassword (n_name node)]"
  by (simp add: node_secrets_def dumps_hunter2 startswith_def del: json_dumps.simps)

lemma secrets_templated:
  "parameters node = [(''password'', JStr ''{{ $env.PASS }}'')] \<Longrightarrow> node_secrets L node = []"
  by (simp add: node_secrets_def dumps_templated startswith_def del: json_dumps.simps)

lemma secrets_api_key:
  "parameters node = [(''api_key'', JStr ''sk_live_abc123'')] \<Longrightarrow> node_secrets L node = []"
  by (simp add: node_secrets_def dumps_api_key startswith_def del: json_dumps.simps)

text \<open>
  Claim C4, as stated, fails for \<open>api_key\<close>: the scan looks for the substrings
  \<open>password\<close> and \<open>token\<close> only, so a node whose parameters are
  \<open>{"api_key": "sk_live_abc123"}\<close>, with no template delimiter, is not flagged.
\<close>

theorem api_key_literal_counterexample:
  "parameters (secret_node ''call_api'' [(''api_key'', JStr ''sk_live_abc123'')])
     = [(''api_key'', JStr ''sk_live_abc123'')]
   \<and> find_hardcoded_secrets example_lib
        (secret_workflow [secret_node ''call_api'' [(''api_key'', JStr ''sk_live_abc123'')]]) = []"
  by (simp add: find_hardcoded_secrets_def secret_workflow_def secrets_api_key secret_node_def)

text \<open>
  Claim C4, amended: the security check scans the serialized parameters of every node and
  flags the node once for \<open>password\<close> and once for \<open>token\<close> when the serialization
  holds that substring and does not hold the template delimiter \<open>{{\<close>; nothing is
  scanned for \<open>api_key\<close>. In particular a node with the parameters
  \<open>{"password": "hunter2"}\<close> is flagged as a hardcoded password, and nothing is flagged
  when the parameters are \<open>{"password": "{{ $env.PASS }}"}\<close>.
\<close>

theorem find_hardcoded_secrets_scan:
  "set (find_hardcoded_secrets L W)
     = {HardcodedPassword (n_name node) | node.
          node \<in> set (nodes W)
          \<and> contains ''password'' (json_dumps L (JObj (parameters node)))
          \<and> \<not> contains ''{{'' (json_dumps L (JObj (parameters node)))}
       \<union> {HardcodedToken (n_name node) | node.
          node \<in> set (nodes W)
          \<and> contains ''token'' (json_dumps L (JObj (parameters node)))
          \<and> \<not> contains ''{{'' (json_dumps L (JObj (parameters node)))}
   \<and> (node \<in> set (nodes W) \<and> parameters node = [(''password'', JStr ''hunter2'')]
        \<longrightarrow> HardcodedPassword (n_name node) \<in> set (find_hardcoded_secrets L W))
   \<and> ((\<forall>node \<in> set (nodes W). parameters node = [(''password'', JStr ''{{ $env.PASS }}'')])
        \<longrightarrow> find_hardcoded_secrets L W = [])"
proof (intro conjI impI)
  show "set (find_hardcoded_secrets L W)
     = {HardcodedPassword (n_name node) | node.
          node \<in> set (nodes W)
          \<and> contains ''password'' (json_dumps L (JObj (parameters node)))
          \<and> \<not> contains ''{{'' (json_dumps L (JObj (parameters node)))}
       \<union> {HardcodedToken (n_name node) | node.
          node \<in> set (nodes W)
          \<and> contains ''token'' (json_dumps L (JObj (parameters node)))
          \<and> \<not> contains ''{{'' (json_dumps L (JObj (parameters node)))}"
    by (auto simp: find_hardcoded_secrets_def node_secrets_def Let_def split: if_splits)
next
  assume "node \<in> set (nodes W) \<and> parameters node = [(''password'', JStr ''hunter2'')]"
  then show "HardcodedPassword (n_name node) \<in> set (find_hardcoded_secrets L W)"
    using secrets_hunter2 [of node L] by (force simp: find_hardcoded_secrets_def)
next
  assume "\<forall>node \<in> set (nodes W). parameters node = [(''password'', JStr ''{{ $env.PASS }}'')]"
  then have "\<forall>node \<in> set (nodes W). node_secrets L node = []"
    using secrets_templated by blast
  then show "find_hardcoded_secrets L W = []"
    by (simp add: find_hardcoded_secrets_def)
qed

theorem find_hardcoded_secrets_scan_witness:
  "find_hardcoded_secrets example_lib
     (secret_workflow [secret_node ''login'' [(''password'', JStr ''hunter2'')]])
     = [HardcodedPassword ''login'']
   \<and> find_hardcoded_secrets example_lib
     (secret_workflow [secret_node ''login'' [(''password'', JStr ''{{ $env.PASS }}'')]]) = []"
proof -
  let ?n = "secret_node ''login'' [(''password'', JStr ''hunter2'')]"
  let ?m = "secret_node ''login'' [(''password'', JStr ''{{ $env.PASS }}'')]"
  have a: "?n \<in> set (nodes (secret_workflow [?n])) \<and> parameters ?n = [(''password'', JStr ''hunter2'')]"
    by (simp add: secret_workflow_def secret_node_def)
  have b: "\<forall>node \<in> set (nodes (secret_workflow [?m])).
             parameters node = [(''password'', JStr ''{{ $env.PASS }}'')]"
    by (simp add: secret_workflow_def secret_node_def)
  have c: "find_hardcoded_secrets example_lib (secret_workflow [?n]) = [HardcodedPassword ''login'']"
    by (simp add: find_hardcoded_secrets_def secret_workflow_def secrets_hunter2 secret_node_def)
  from find_hardcoded_secrets_scan [of example_lib "secret_workflow [?m]"] b
  have "find_hardcoded_secrets example_lib (secret_workflow [?m]) = []" by blast
  with c show ?thesis by simp
qed

lemma dumps_contains_nested:
  assumes "(k, v) \<in> set kvs" "contains p (json_dumps L v)"
  shows "contains p (json_dumps L (JObj kvs))"
proof -
  have "contains p ((json_string k @ '': '') @ json_dumps L v @ [])"
    using assms(2) by (rule contains_embed)
  then have "contains p (json_string k @ '': '' @ json_dumps L v)" by simp
  then show ?thesis using dumps_item [OF assms(1)] contains_trans by blast
qed















subsection \<open>Computations that may raise\<close>

lemma bind_Inr: "bind m f = Inr y \<longleftrightarrow> (\<exists>v. m = Inr v \<and> f v = Inr y)"
  by (cases m) (simp_all add: bind_def)

lemma bind_Inr_simp [simp]: "bind (Inr v) f = f v"
  by (simp add: bind_def)

lemma bind_Inl_simp [simp]: "bind (Inl e) f = Inl e"
  by (simp add: bind_def)

lemma mapM_Inr:
  "mapM f xs = Inr ys \<Longrightarrow> length ys = length xs \<and> (\<forall>i < length xs. f (xs ! i) = Inr (ys ! i))"
proof (induction xs arbitrary: ys)
  case Nil
  then show ?case by simp
next
  case (Cons a as)
  from Cons.prems obtain b bs where b: "f a = Inr b" "mapM f as = Inr bs" "ys = b # bs"
    by (auto simp: bind_Inr)
  from Cons.IH [OF b(2)] have ih: "length bs = length as" "\<forall>i < length as. f (as ! i) = Inr (bs ! i)"
    by simp_all
  show ?case
  proof (intro conjI allI impI)
    show "length ys = length (a # as)" using b ih by simp
  next
    fix i assume "i < length (a # as)"
    then show "f ((a # as) ! i) = Inr (ys ! i)" using b ih by (cases i) simp_all
  qed
qed

lemma mapM_all_Inr:
  "(\<forall>x \<in> set xs. \<exists>y. f x = Inr y) \<Longrightarrow> \<exists>ys. mapM f xs = Inr ys"
  by (induction xs) auto

lemma mapM_map: "(\<forall>x \<in> set xs. f x = Inr (g x)) \<Longrightarrow> mapM f xs = Inr (map g xs)"
  by (induction xs) auto

subsection \<open>Loading from the vault\<close>




lemma nodes_not_array_note:
  assumes v: "validate_workflow_json (JObj dat) = Inr errs"
    and n: "map_of dat ''nodes'' = Some u" "\<forall>ns. u \<noteq> JArr ns"
  shows "NodesNotArray \<in> set errs"
  using assms
  by (cases u) (auto simp: validate_workflow_json_def bind_Inr py_get_def)




lemmas raw_check_defs =
  validate_workflow_json_def validate_node_structure_def missing_fields_def py_in_def py_get_def
  name_errors_def position_errors_def is_number_def enumerate_eq_zip







subsection \<open>The wire format\<close>









lemmas node_name_defs =
  validate_naming_convention_def valid_chars_def special_chars_def isupper_def latin_upper_def
  upper_alphabet_def lower_alphabet_def digit_chars_def





subsection \<open>Combining two workflows\<close>

lemma validate_naming_convention_good:
  "validate_naming_convention v = Inr v \<longleftrightarrow> list_all good_char v"
  by (auto simp: validate_naming_convention_def good_char_def list_all_iff list_ex_iff)

lemma snake_chars_good_all: "list_all good_char snake_chars"
  by (simp add: good_char_def snake_chars_def valid_chars_def special_chars_def isupper_def latin_upper_def
      lower_alphabet_def upper_alphabet_def digit_chars_def)

lemma snake_char_good: "c \<in> set snake_chars \<Longrightarrow> good_char c"
  using snake_chars_good_all by (simp add: list_all_iff)

lemma prefixed_name_valid:
  assumes "snake_case wn" "validate_naming_convention nm = Inr nm"
  shows "validate_naming_convention (wn @ ''_'' @ nm) = Inr (wn @ ''_'' @ nm)"
proof -
  have "list_all good_char wn"
    using assms(1) by (simp add: snake_case_def list_all_iff snake_char_good)
  moreover have "good_char CHR ''_''" using underscore_snake by (rule snake_char_good)
  ultimately show ?thesis
    using assms(2) by (simp add: validate_naming_convention_good)
qed

lemma combine_node_valid:
  assumes "snake_case wn" "validate_naming_convention (n_name node) = Inr (n_name node)"
    "retries node = 3"
  shows "combine_node wn x_offset 0 node = Inr (combined_node wn x_offset node)"
  using prefixed_name_valid [OF assms(1,2)] assms(3)
  by (simp add: combine_node_def N8nNode_new_def field_errors_def validate_retry_count_def
      combined_node_def)

lemma combine_nodes_valid:
  assumes "snake_case wn"
    "list_all (\<lambda>node. validate_naming_convention (n_name node) = Inr (n_name node)
                       \<and> retries node = 3) ns"
  shows "mapM (combine_node wn x_offset 0) ns = Inr (map (combined_node wn x_offset) ns)"
  using assms by (intro mapM_map) (simp add: list_all_iff combine_node_valid)




lemma combine_connections_objects:
  assumes "list_all (\<lambda>item. case snd item of JObj outs \<Rightarrow> True | _ \<Rightarrow> False) items"
  shows "combine_connections L wn items acc
         = Inr (fold (\<lambda>item acc. AList.update ((\<lambda>s. wn @ ''_'' @ s) (fst item))
                                     (the_targets L wn (snd item)) acc) items acc)"
  using assms
proof (induction items arbitrary: acc)
  case Nil
  then show ?case by simp
next
  case (Cons it rest)
  then obtain outs where o: "snd it = JObj outs" by (cases "snd it") simp_all
  then have "rewrite_targets L wn (snd it) = Inr (the_targets L wn (snd it))"
    by (simp add: rewrite_targets_def the_targets_def)
  then show ?case using Cons by simp
qed




lemma combine_two:
  assumes v1: "valid_workflow W1" and v2: "valid_workflow W2"
    and c2: "connection_map (connections W2)"
  shows "combine_workflows L [W1, W2] combined_name
         = Inr \<lparr>w_name = validate_workflow_naming combined_name,
                nodes = nodes W1 @ map (combined_node (w_name W2) 400) (nodes W2),
                connections =
                  fold (\<lambda>item acc. AList.update ((\<lambda>s. w_name W2 @ ''_'' @ s) (fst item))
                                      (the_targets L (w_name W2) (snd item)) acc)
                    (connections W2) (connections W1),
                settings = settings W1, w_id = None, active = False, tags = []\<rparr>"
proof -
  have n1: "nodes W1 \<noteq> []" using v1 by (simp add: valid_workflow_def)
  have n: "mapM (combine_node (w_name W2) 400 0) (nodes W2)
           = Inr (map (combined_node (w_name W2) 400) (nodes W2))"
    using v2 by (intro combine_nodes_valid) (simp_all add: valid_workflow_def)
  have "list_all (\<lambda>item. case snd item of JObj outs \<Rightarrow> True | _ \<Rightarrow> False) (connections W2)"
    using c2 by (auto simp: connection_map_def list_all_iff split: json.splits)
  then have c: "combine_connections L (w_name W2) (connections W2) (connections W1)
           = Inr (fold (\<lambda>item acc. AList.update ((\<lambda>s. w_name W2 @ ''_'' @ s) (fst item))
                                      (the_targets L (w_name W2) (snd item)) acc)
                    (connections W2) (connections W1))"
    by (rule combine_connections_objects)
  show ?thesis
    using n1 by (simp add: combine_workflows_def N8nWorkflow_new_def field_errors_def
        validate_required_nodes_def n c)
qed











subsection \<open>Assembling two templates of one node\<close>

lemma mapM_set:
  assumes "mapM f xs = Inr ys" "y \<in> set ys"
  shows "\<exists>x \<in> set xs. f x = Inr y"
proof -
  from mapM_Inr [OF assms(1)] have l: "length ys = length xs"
    and a: "\<forall>i < length xs. f (xs ! i) = Inr (ys ! i)" by simp_all
  from assms(2) obtain i where "i < length ys" "ys ! i = y" by (auto simp: in_set_conv_nth)
  then show ?thesis using l a by (metis nth_mem)
qed

lemma then_check_Inr: "then_check r f = Inr y \<longleftrightarrow> (\<exists>v. r = Inr v \<and> f v = Inr y)"
  by (cases r) (simp_all add: then_check_def)

lemma validate_naming_convention_Inr:
  "validate_naming_convention v = Inr w \<Longrightarrow> w = v"
  by (simp add: validate_naming_convention_def split: if_splits)

lemma field_errors_Nil: "field_errors r = [] \<longleftrightarrow> (\<exists>v. r = Inr v)"
  by (cases r) (simp_all add: field_errors_def)

lemma N8nNode_of_json_Inr:
  assumes "N8nNode_of_json i nm ty pos ps cr = Inr node"
  shows "validate_naming_convention (n_name node) = Inr (n_name node)
         \<and> retries node = 3 \<and> retry_on_fail node"
proof -
  from assms have e: "field_errors (then_check (as_str ''name'' nm) validate_naming_convention) = []"
    and n: "n_name node = the_field (then_check (as_str ''name'' nm) validate_naming_convention) []"
    and r: "retries node = 3" "retry_on_fail node"
    by (auto simp: N8nNode_of_json_def Let_def split: if_splits)
  from e obtain v where v: "then_check (as_str ''name'' nm) validate_naming_convention = Inr v"
    by (auto simp: field_errors_Nil)
  then obtain s where "validate_naming_convention s = Inr v" by (auto simp: then_check_Inr)
  then have "validate_naming_convention v = Inr v"
    using validate_naming_convention_Inr by blast
  then show ?thesis using n v r by (simp add: the_field_def)
qed

lemma node_from_json_Inr:
  assumes "node_from_json L item = Inr node"
  shows "validate_naming_convention (n_name node) = Inr (n_name node)
         \<and> retries node = 3 \<and> retry_on_fail node"
proof -
  from assms obtain i nm ty pos ps cr where "N8nNode_of_json i nm ty pos ps cr = Inr node"
    unfolding node_from_json_def bind_Inr by blast
  then show ?thesis by (rule N8nNode_of_json_Inr)
qed

lemma N8nWorkflow_of_json_Inr:
  assumes "N8nWorkflow_of_json nm ns cs ss i a ts = Inr W"
  shows "nodes W = ns \<and> ns \<noteq> [] \<and> snake_case (w_name W)"
  using assms
  by (auto simp: N8nWorkflow_of_json_def Let_def field_errors_def validate_required_nodes_def
      snake_case_validate_workflow_naming split: if_splits)

lemma from_n8n_json_valid:
  assumes "from_n8n_json L d = Inr W"
  shows "valid_workflow W \<and> list_all retry_on_fail (nodes W)"
proof -
  from assms obtain items ns nm cs ss i a ts where
    m: "mapM (node_from_json L) items = Inr ns"
    and w: "N8nWorkflow_of_json nm ns cs ss i a ts = Inr W"
    unfolding from_n8n_json_def bind_Inr by blast
  from N8nWorkflow_of_json_Inr [OF w] have W: "nodes W = ns" "ns \<noteq> []" "snake_case (w_name W)"
    by simp_all
  have "\<forall>node \<in> set ns. validate_naming_convention (n_name node) = Inr (n_name node)
         \<and> retries node = 3 \<and> retry_on_fail node"
    using mapM_set [OF m] node_from_json_Inr by blast
  then show ?thesis using W by (simp add: valid_workflow_def list_all_iff)
qed

lemma load_valid:
  assumes "load_workflow_from_vault L V name = Inr W"
  shows "valid_workflow W \<and> list_all retry_on_fail (nodes W)"
proof -
  from assms obtain d where "from_n8n_json L d = Inr W"
    by (auto simp: load_workflow_from_vault_def bind_Inr
        split: option.splits vault_file.splits sum.splits if_splits)
  then show ?thesis by (rule from_n8n_json_valid)
qed


lemma shadow_prefixes_good: "list_all good_char ''log__''" "list_all good_char ''error__''"
  by (simp_all add: good_char_def valid_chars_def special_chars_def isupper_def latin_upper_def
      lower_alphabet_def upper_alphabet_def digit_chars_def)

lemma snake_case_good: "snake_case s \<Longrightarrow> list_all good_char s"
  by (simp add: snake_case_def list_all_iff snake_char_good)

lemma log_node_good:
  assumes "list_all good_char (n_name node)"
  shows "log_node wn (i, node) = Inr (log_shadow wn i node)"
proof -
  have "validate_naming_convention (''log__'' @ n_name node) = Inr (''log__'' @ n_name node)"
    using assms shadow_prefixes_good(1) by (simp only: validate_naming_convention_good list_all_append)
  then show ?thesis
    by (simp add: log_node_def N8nNode_new_def field_errors_def validate_retry_count_def
        log_shadow_def del: append.simps)
qed

lemma error_node_good:
  assumes "list_all good_char (n_name node)"
  shows "error_node wn (i, node) = Inr (error_shadow wn i node)"
proof -
  have "validate_naming_convention (''error__'' @ n_name node) = Inr (''error__'' @ n_name node)"
    using assms shadow_prefixes_good(2) by (simp only: validate_naming_convention_good list_all_append)
  then show ?thesis
    by (simp add: error_node_def N8nNode_new_def field_errors_def validate_retry_count_def
        error_shadow_def del: append.simps)
qed

lemma snake_case_no_shadow_prefix:
  assumes "snake_case s"
  shows "\<not> startswith s ''log__'' \<and> \<not> startswith s ''error__''"
proof -
  have n: "no_double_underscore s" using assms by (simp add: snake_case_def)
  have "\<not> no_double_underscore (''log__'' @ r)" "\<not> no_double_underscore (''error__'' @ r)" for r
    by (simp_all add: no_double_append)
  then show ?thesis using n by (auto simp: startswith_iff)
qed

lemma log_name_no_error_prefix: "\<not> startswith (''log__'' @ s) ''error__''"
  by (simp add: startswith_def)

lemma inject_retry_node_compliant_id:
  "retries node = 3 \<Longrightarrow> retry_on_fail node \<Longrightarrow> inject_retry_node node = node"
  by (simp add: inject_retry_node_def)


lemma combine_pair:
  assumes va: "valid_workflow WA" and a: "nodes WA = [a]" "connections WA = []"
    and vb: "valid_workflow WB" and b: "nodes WB = [b]" "connections WB = []"
  shows "combine_workflows L [WA, WB] nm
         = Inr \<lparr>w_name = validate_workflow_naming nm,
                nodes = [a, combined_node (w_name WB) 400 b], connections = [],
                settings = settings WA, w_id = None, active = False, tags = []\<rparr>"
proof -
  have "connection_map (connections WB)" using b by (simp add: connection_map_def)
  from combine_two [OF va vb this, of L nm] show ?thesis using a b by simp
qed

lemma pipeline_pair:
  assumes x: "snake_case (n_name x)" "retries x = 3" "retry_on_fail x"
      "n_type x = ''n8n-nodes-base.webhook''"
    and y: "snake_case (n_name y)" "retries y = 3" "retry_on_fail y"
      "n_type y = ''n8n-nodes-base.slack''"
    and W: "nodes W = [x, y]" "connections W = []"
  shows "bind (add_logging_instrumentation
                 (add_idempotency_keys L (inject_retry_logic W) ''email''))
           (\<lambda>c1. bind (add_error_handling c1) (\<lambda>c2.
              bind (validate_node_connections c2) (\<lambda>validation_errors. Inr c2)))
         = Inr (W\<lparr>nodes := [x, y, log_shadow (w_name W) 0 x, log_shadow (w_name W) 1 y,
                              error_shadow (w_name W) 0 x, error_shadow (w_name W) 1 y,
                              error_shadow (w_name W) 2 (log_shadow (w_name W) 0 x),
                              error_shadow (w_name W) 3 (log_shadow (w_name W) 1 y)]\<rparr>)"
proof -
  let ?wn = "w_name W"
  let ?lx = "log_shadow ?wn 0 x" and ?ly = "log_shadow ?wn 1 y"
  have 1: "inject_retry_logic W = W"
    using x y W by (simp add: inject_retry_logic_def inject_retry_node_compliant_id)
  have 2: "add_idempotency_keys L W ''email'' = W"
    using x y W by (simp add: add_idempotency_keys_def supports_idempotency_def idempotent_types_def)
  have gx: "list_all good_char (n_name x)" and gy: "list_all good_char (n_name y)"
    using x y by (simp_all add: snake_case_good)
  have nx: "\<not> startswith (n_name x) ''log__''" "\<not> startswith (n_name x) ''error__''"
    and ny: "\<not> startswith (n_name y) ''log__''" "\<not> startswith (n_name y) ''error__''"
    using x y snake_case_no_shadow_prefix by simp_all
  have e2: "enumerate 0 [p, q] = [(0, p), (1, q)]" for p q :: N8nNode
    by (simp add: enumerate_eq_zip)
  have 3: "add_logging_instrumentation W = Inr (W\<lparr>nodes := [x, y, ?lx, ?ly]\<rparr>)"
    using W nx ny
    by (simp add: add_logging_instrumentation_def e2 log_node_good gx gy del: enumerate_simps)
  have glx: "list_all good_char (n_name (log_shadow ?wn i x))"
    and gly: "list_all good_char (n_name (log_shadow ?wn i y))" for i
    using gx gy shadow_prefixes_good(1) by (simp_all add: log_shadow_def del: append.simps)
  have nlx: "\<not> startswith (n_name (log_shadow ?wn i x)) ''error__''"
    and nly: "\<not> startswith (n_name (log_shadow ?wn i y)) ''error__''" for i
    using log_name_no_error_prefix by (simp_all add: log_shadow_def del: append.simps)
  have e4: "enumerate 0 [p, q, r, s] = [(0, p), (1, q), (2, r), (3, s)]" for p q r s :: N8nNode
    by (simp add: enumerate_eq_zip upt_rec)
  have 4: "add_error_handling (W\<lparr>nodes := [x, y, ?lx, ?ly]\<rparr>)
           = Inr (W\<lparr>nodes := [x, y, ?lx, ?ly,
                              error_shadow ?wn 0 x, error_shadow ?wn 1 y,
                              error_shadow ?wn 2 ?lx, error_shadow ?wn 3 ?ly]\<rparr>)"
    using nx ny nlx nly
    by (simp add: add_error_handling_def e4 error_node_good gx gy glx gly del: enumerate_simps)
  have 5: "validate_node_connections (W\<lparr>nodes := ns\<rparr>) = Inr []" for ns
    using W by (simp add: validate_node_connections_def)
  show ?thesis by (simp only: 1 2 3 4 5 bind_Inr_simp)
qed

lemma combined_node_fields:
  "n_type (combined_node wn xo node) = n_type node" "retries (combined_node wn xo node) = retries node"
  "retry_on_fail (combined_node wn xo node) = retry_on_fail node"
  "n_id (combined_node wn xo node) = wn @ ''_'' @ n_id node"
  by (simp_all add: combined_node_def)

lemma assemble_pair:
  assumes la: "load_workflow_from_vault L V ''A'' = Inr WA"
    and a: "nodes WA = [a]" "n_type a = ''n8n-nodes-base.webhook''" "connections WA = []"
    and lb: "load_workflow_from_vault L V ''B'' = Inr WB"
    and b: "nodes WB = [b]" "n_type b = ''n8n-nodes-base.slack''" "connections WB = []"
  shows "assemble_workflows L V [''A'', ''B''] opportunity
         = Inr \<lparr>w_name = normalize_name (validate_workflow_naming (generate_workflow_name opportunity)),
                nodes =
                  (let wn = normalize_name (validate_workflow_naming (generate_workflow_name opportunity));
                       x = enforce_node a;
                       y = enforce_node (combined_node (w_name WB) 400 b)
                   in [x, y, log_shadow wn 0 x, log_shadow wn 1 y,
                       error_shadow wn 0 x, error_shadow wn 1 y,
                       error_shadow wn 2 (log_shadow wn 0 x),
                       error_shadow wn 3 (log_shadow wn 1 y)]),
                connections = [], settings = settings WA, w_id = None, active = False, tags = []\<rparr>"
proof -
  let ?nm = "generate_workflow_name opportunity"
  let ?x = "enforce_node a" and ?y = "enforce_node (combined_node (w_name WB) 400 b)"
  from load_valid [OF la] a have va: "valid_workflow WA" and ra: "retries a = 3" "retry_on_fail a"
    by (simp_all add: valid_workflow_def)
  from load_valid [OF lb] b have vb: "valid_workflow WB" and rb: "retries b = 3" "retry_on_fail b"
    by (simp_all add: valid_workflow_def)
  let ?C0 = "\<lparr>w_name = validate_workflow_naming ?nm,
                nodes = [a, combined_node (w_name WB) 400 b], connections = [],
                settings = settings WA, w_id = None, active = False, tags = []\<rparr>"
  have c: "combine_workflows L [WA, WB] ?nm = Inr ?C0"
    using va a(1,3) vb b(1,3) by (rule combine_pair)
  let ?C1 = "enforce_naming_conventions ?C0"
  have n1: "nodes ?C1 = [?x, ?y]" "connections ?C1 = []"
    "w_name ?C1 = normalize_name (validate_workflow_naming ?nm)"
    "settings ?C1 = settings WA" "w_id ?C1 = None" "active ?C1 = False" "tags ?C1 = []"
    by (simp_all add: enforce_naming_conventions_def)
  have p: "bind (add_logging_instrumentation
                 (add_idempotency_keys L (inject_retry_logic ?C1) ''email''))
           (\<lambda>c1. bind (add_error_handling c1) (\<lambda>c2.
              bind (validate_node_connections c2) (\<lambda>validation_errors. Inr c2)))
         = Inr (?C1\<lparr>nodes := [?x, ?y, log_shadow (w_name ?C1) 0 ?x, log_shadow (w_name ?C1) 1 ?y,
                              error_shadow (w_name ?C1) 0 ?x, error_shadow (w_name ?C1) 1 ?y,
                              error_shadow (w_name ?C1) 2 (log_shadow (w_name ?C1) 0 ?x),
                              error_shadow (w_name ?C1) 3 (log_shadow (w_name ?C1) 1 ?y)]\<rparr>)"
    using enforce_node_snake [of a] enforce_node_snake [of "combined_node (w_name WB) 400 b"]
      ra rb a(2) b(2) n1(1,2)
    by (intro pipeline_pair) (simp_all add: enforce_node_fields combined_node_fields)
  have l: "mapM (load_workflow_from_vault L V) [''A'', ''B''] = Inr [WA, WB]"
    using la lb by simp
  have r: "?C1\<lparr>nodes := ns\<rparr>
           = \<lparr>w_name = normalize_name (validate_workflow_naming ?nm), nodes = ns,
              connections = [], settings = settings WA, w_id = None, active = False, tags = []\<rparr>" for ns
    by (simp add: enforce_naming_conventions_def)
  show ?thesis
    unfolding assemble_workflows_def l bind_Inr_simp c p
    by (simp only: sum.case r n1(3) Let_def)
qed


lemma contains_template_timestamp: "contains ''{{'' ''{{ new Date().toISOString() }}''"
  by (simp add: startswith_def)

lemma log_shadow_templated:
  "contains ''{{'' (json_dumps L (JObj (parameters (log_shadow wn i node))))"
proof -
  let ?inner = "[(''timestamp'', JStr ''{{ new Date().toISOString() }}''),
                (''node_id'', JStr (n_id node)),
                (''node_name'', JStr (n_name node)),
                (''workflow_name'', JStr wn),
                (''execution_time'', JStr ''{{ $now - $nodeExecutionStart }}''),
                (''success'', JStr ''{{ $node.success }}''),
                (''item_count'', JStr ''{{ $input.all().length }}'')]"
  have "(''timestamp'', JStr ''{{ new Date().toISOString() }}'') \<in> set ?inner" by simp
  then have "contains ''{{'' (json_dumps L (JObj ?inner))"
    using plain_words(3) contains_template_timestamp by (rule dumps_contains_string_value)
  moreover have "(''values'', JObj ?inner) \<in> set (parameters (log_shadow wn i node))"
    by (simp add: log_shadow_def)
  ultimately show ?thesis by (rule dumps_contains_nested [rotated])
qed

lemma error_shadow_templated:
  "contains ''{{'' (json_dumps L (JObj (parameters (error_shadow wn i node))))"
proof -
  let ?inner = "[(''original_node'', JStr (n_name node)),
                (''workflow_name'', JStr wn),
                (''timestamp'', JStr ''{{ new Date().toISOString() }}''),
                (''error_message'', JStr ''{{ $json.error }}''),
                (''input_data'', JStr ''{{ $json.input }}'')]"
  have "(''timestamp'', JStr ''{{ new Date().toISOString() }}'') \<in> set ?inner" by simp
  then have "contains ''{{'' (json_dumps L (JObj ?inner))"
    using plain_words(3) contains_template_timestamp by (rule dumps_contains_string_value)
  moreover have "(''errorData'', JObj ?inner) \<in> set (parameters (error_shadow wn i node))"
    by (simp add: error_shadow_def)
  ultimately show ?thesis by (rule dumps_contains_nested [rotated])
qed

lemma shadow_no_secrets:
  "node_secrets L (log_shadow wn i node) = []" "node_secrets L (error_shadow wn i node) = []"
  using log_shadow_templated [of L wn i node] error_shadow_templated [of L wn i node]
  by (simp_all add: node_secrets_def del: json_dumps.simps)

lemma shadow_fields:
  "n_name (log_shadow wn i node) = ''log__'' @ n_name node"
  "n_name (error_shadow wn i node) = ''error__'' @ n_name node"
  "retries (log_shadow wn i node) = 3" "retries (error_shadow wn i node) = 3"
  "n_type (log_shadow wn i node) = ''n8n-nodes-base.set''"
  "n_type (error_shadow wn i node) = ''n8n-nodes-base.webhook''"
  by (simp_all add: log_shadow_def error_shadow_def)

lemma error_name_prefix: "startswith (''error__'' @ s) ''error__''"
  by (simp add: startswith_def)

lemma overall_status_pass:
  "overall_status (report_summary rs) = ''PASS'' \<longleftrightarrow> list_all passed rs"
proof -
  have "length rs - length (filter passed rs) = 0 \<longleftrightarrow> length (filter passed rs) = length rs"
    using length_filter_le [of passed rs] by arith
  also have "\<dots> \<longleftrightarrow> list_all passed rs"
    by (metis filter_id_conv length_filter_less less_irrefl list_all_iff)
  finally show ?thesis by (simp add: report_summary_def Let_def)
qed

text \<open>The results of the validator on the workflow assembled from a pair.\<close>

lemma validate_pair:
  assumes x: "snake_case (n_name x)" "retries x = 3"
    and y: "snake_case (n_name y)" "retries y = 3"
    and wn: "wn \<noteq> []"
    and C: "C = \<lparr>w_name = wn,
                nodes = [x, y, log_shadow wn 0 x, log_shadow wn 1 y,
                         error_shadow wn 0 x, error_shadow wn 1 y,
                         error_shadow wn 2 (log_shadow wn 0 x),
                         error_shadow wn 3 (log_shadow wn 1 y)],
                connections = [], settings = ss, w_id = None, active = False, tags = []\<rparr>"
  shows "validate_json_schema C
           = Inr [result True ''schema'' WorkflowNameValid,
                  result True ''schema'' (NodeCountAcceptable 8),
                  result True ''schema'' ConnectionsValid]"
    and "validate_business_logic C
           = [result True ''logic'' (ErrorHandlingImplemented 4),
              result True ''logic'' (RetryLogicImplemented 8)]"
    and "find_hardcoded_secrets L C = node_secrets L x @ node_secrets L y"
    and "validate_performance C = [result True ''performance'' (ExecutionTimeAcceptable 16)]"
    and "list_all passed (validate_integrations C)"
proof -
  have nx: "\<not> startswith (n_name x) ''error__''" "\<not> startswith (n_name y) ''error__''"
    using x y snake_case_no_shadow_prefix by simp_all
  show "validate_json_schema C
           = Inr [result True ''schema'' WorkflowNameValid,
                  result True ''schema'' (NodeCountAcceptable 8),
                  result True ''schema'' ConnectionsValid]"
  proof -
    have l: "length (nodes C) = 8" by (simp add: C)
    have c: "validate_node_connections C = Inr []" by (simp add: C validate_node_connections_def)
    have n: "w_name C \<noteq> []" using wn by (simp add: C)
    show ?thesis by (simp add: validate_json_schema_def l c n max_nodes_def)
  qed
  show "validate_business_logic C
           = [result True ''logic'' (ErrorHandlingImplemented 4),
              result True ''logic'' (RetryLogicImplemented 8)]"
    using nx x y
    by (simp add: C validate_business_logic_def shadow_fields error_name_prefix
        log_name_no_error_prefix required_error_handling_def required_retry_logic_def
        eval_nat_numeral del: append.simps)
  show "find_hardcoded_secrets L C = node_secrets L x @ node_secrets L y"
    by (simp add: C find_hardcoded_secrets_def shadow_no_secrets)
  show "validate_performance C = [result True ''performance'' (ExecutionTimeAcceptable 16)]"
  proof -
    have l: "length (nodes C) = 8" by (simp add: C)
    show ?thesis
      by (simp add: validate_performance_def estimate_execution_time_def l
          max_execution_time_estimate_def)
  qed
  show "list_all passed (validate_integrations C)"
    by (simp add: validate_integrations_def result_def Let_def)
qed

subsection \<open>The lead capture scenario\<close>

text \<open>Loading the two templates, and assembling them.\<close>

lemma lower_trigger: "lower ''trigger'' = ''trigger''" "lower ''notify'' = ''notify''"
  by (simp_all add: char_class_defs)

lemma match_trigger: "matches_node_naming ''trigger''" "matches_node_naming ''notify''"
  by (simp_all add: matches_node_naming_def snake_chars_def lower_alphabet_def digit_chars_def)

lemma check_templates:
  "validate_workflow_json template_A = Inr []" "validate_workflow_json template_B = Inr []"
  by (simp_all add: template_A_def template_B_def raw_check_defs lower_trigger match_trigger)

lemma valid_name_trigger: "validate_naming_convention ''trigger'' = Inr ''trigger''"
  "validate_naming_convention ''notify'' = Inr ''notify''"
  by (simp_all add: node_name_defs)

lemma workflow_naming_A: "validate_workflow_naming ''A'' = ''a''" "validate_workflow_naming ''B'' = ''b''"
  by (simp_all add: validate_workflow_naming_def char_class_defs)

lemmas from_json_defs =
  from_n8n_json_def node_from_json_def py_get_def py_item_def py_index_def py_iter_def
  NodePosition_of_def N8nNode_of_json_def N8nWorkflow_of_json_def as_float_def as_str_def
  as_dict_def as_opt_dict_def as_opt_str_def as_bool_def as_str_list_def then_check_def
  field_errors_def the_field_def validate_required_nodes_def

lemma from_template_A: "from_n8n_json L template_A = Inr workflow_A"
  by (simp add: template_A_def from_json_defs valid_name_trigger workflow_naming_A
      workflow_A_def node_A_def)

lemma from_template_B: "from_n8n_json L template_B = Inr workflow_B"
  by (simp add: template_B_def from_json_defs valid_name_trigger workflow_naming_A
      workflow_B_def node_B_def)

lemma load_templates:
  "load_workflow_from_vault L lead_vault ''A'' = Inr workflow_A"
  "load_workflow_from_vault L lead_vault ''B'' = Inr workflow_B"
  by (simp_all add: load_workflow_from_vault_def lead_vault_def check_templates from_template_A
      from_template_B)

lemma lead_name: "generate_workflow_name lead_opportunity = ''lead_capture_automation''"
  by (simp add: generate_workflow_name_def lead_opportunity_def isalnum_def char_class_defs)

lemma snake_case_lead_name: "snake_case ''lead_capture_automation''"
  by (simp add: snake_case_def snake_chars_def lower_alphabet_def digit_chars_def)

lemma lead_name_normal:
  "normalize_name (validate_workflow_naming ''lead_capture_automation'') = ''lead_capture_automation''"
  using snake_case_lead_name by (simp add: validate_workflow_naming_snake normalize_name_snake)

lemma normalize_trigger: "normalize_name ''trigger'' = ''trigger''"
  "normalize_name ''b_notify'' = ''b_notify''"
  by (simp_all add: normalize_name_def char_class_defs)

lemma enforce_node_A: "enforce_node node_A = lead_webhook"
  by (simp add: enforce_node_def node_A_def normalize_trigger prefix_defs lead_webhook_def)

lemma enforce_node_B: "enforce_node (combined_node ''b'' 400 node_B) = lead_slack"
  by (simp add: enforce_node_def combined_node_def node_B_def normalize_trigger prefix_defs
      lead_slack_def)

lemma assemble_lead:
  "assemble_workflows L lead_vault [''A'', ''B''] lead_opportunity = Inr lead_assembled"
proof -
  have a: "nodes workflow_A = [node_A]" "n_type node_A = ''n8n-nodes-base.webhook''"
    "connections workflow_A = []"
    and b: "nodes workflow_B = [node_B]" "n_type node_B = ''n8n-nodes-base.slack''"
    "connections workflow_B = []"
    by (simp_all add: workflow_A_def workflow_B_def node_A_def node_B_def)
  have w: "w_name workflow_B = ''b''" "settings workflow_A = []"
    by (simp_all add: workflow_A_def workflow_B_def)
  show ?thesis
    unfolding assemble_pair [OF load_templates(1) a load_templates(2) b]
    by (simp only: lead_name lead_name_normal w enforce_node_A enforce_node_B Let_def
        lead_assembled_def)
qed

text \<open>
  A serialization with no \<open>${{\<close> in it refers to no environment variable; so it is
  with every node of the assembled workflow.
\<close>

lemma find_env_from_none:
  "(\<forall>k. \<not> startswith (drop k s) ''${{'') \<Longrightarrow> find_env_from n s = []"
proof (induction n arbitrary: s)
  case 0
  then show ?case by simp
next
  case (Suc n)
  have "\<not> startswith (drop 0 s) ''${{''" using Suc.prems by blast
  then have m: "match_env_at s = None" by (simp add: match_env_at_def)
  have "\<forall>k. \<not> startswith (drop k (tl s)) ''${{''"
    using Suc.prems by (simp add: drop_Suc [symmetric])
  then have "find_env_from n (tl s) = []" by (rule Suc.IH)
  then show ?case using m by simp
qed

lemma find_env_vars_none:
  assumes "\<not> contains ''${{'' s"
  shows "find_env_vars s = []"
proof -
  have "\<not> startswith (drop k s) ''${{''" for k
  proof
    assume "startswith (drop k s) ''${{''"
    then obtain ys where "drop k s = ''${{'' @ ys" by (auto simp: startswith_iff)
    then have "s = take k s @ ''${{'' @ ys" by (metis append_take_drop_id)
    then show False using assms unfolding contains_iff by blast
  qed
  then show ?thesis unfolding find_env_vars_def by (intro find_env_from_none) simp
qed

lemma dumps_empty: "json_dumps L (JObj []) = ''{}''"
  by simp

lemma no_env_empty: "find_env_vars (json_dumps L (JObj [])) = []"
  by (intro find_env_vars_none) (simp add: startswith_def)

lemma no_secrets_empty: "parameters node = [] \<Longrightarrow> node_secrets L node = []"
  by (simp add: node_secrets_def startswith_def)

lemmas shadow_dump_defs =
  log_shadow_def error_shadow_def lead_webhook_def lead_slack_def node_A_def node_B_def
  json_string_def escape_char_def startswith_def

lemma no_env_lead_shadows:
  "find_env_vars (json_dumps L (JObj (parameters (log_shadow ''lead_capture_automation'' i lead_webhook)))) = []"
  "find_env_vars (json_dumps L (JObj (parameters (log_shadow ''lead_capture_automation'' i lead_slack)))) = []"
  "find_env_vars (json_dumps L (JObj (parameters (error_shadow ''lead_capture_automation'' i lead_webhook)))) = []"
  "find_env_vars (json_dumps L (JObj (parameters (error_shadow ''lead_capture_automation'' i lead_slack)))) = []"
  "find_env_vars (json_dumps L (JObj (parameters
     (error_shadow ''lead_capture_automation'' i
        (log_shadow ''lead_capture_automation'' j lead_webhook))))) = []"
  "find_env_vars (json_dumps L (JObj (parameters
     (error_shadow ''lead_capture_automation'' i
        (log_shadow ''lead_capture_automation'' j lead_slack))))) = []"
  by (intro find_env_vars_none, simp add: shadow_dump_defs)+

lemma no_env_lead_originals:
  "find_env_vars (json_dumps L (JObj (parameters lead_webhook))) = []"
  "find_env_vars (json_dumps L (JObj (parameters lead_slack))) = []"
  using no_env_empty [of L] by (simp_all add: lead_webhook_def lead_slack_def node_A_def node_B_def)

lemma no_env_lead: "extract_env_variables L lead_assembled = {}"
  by (simp add: extract_env_variables_def lead_assembled_def no_env_lead_shadows
      no_env_lead_originals del: json_dumps.simps)

lemma no_secrets_lead: "node_secrets L lead_webhook = []" "node_secrets L lead_slack = []"
  by (simp_all add: no_secrets_empty lead_webhook_def lead_slack_def node_A_def node_B_def)

lemma snake_case_lead_nodes: "snake_case (n_name lead_webhook)" "snake_case (n_name lead_slack)"
  by (simp_all add: lead_webhook_def lead_slack_def node_A_def node_B_def snake_case_def
      snake_chars_def lower_alphabet_def digit_chars_def)

lemma lead_names:
  "map n_name (nodes lead_assembled)
     = [''webhook_trigger'', ''slack_b_notify'', ''log__webhook_trigger'', ''log__slack_b_notify'',
        ''error__webhook_trigger'', ''error__slack_b_notify'', ''error__log__webhook_trigger'',
        ''error__log__slack_b_notify'']"
  by (simp add: lead_assembled_def shadow_fields lead_webhook_def lead_slack_def node_A_def
      node_B_def)

lemma lead_security:
  "validate_security L lead_assembled
     = [result True ''security'' NoHardcodedSecrets,
        result False ''security'' (MissingEnvVars {''NOTION_TOKEN''})]"
proof -
  have r: "retries lead_webhook = 3" "retries lead_slack = 3"
    by (simp_all add: lead_webhook_def lead_slack_def node_A_def node_B_def)
  have "find_hardcoded_secrets L lead_assembled = node_secrets L lead_webhook @ node_secrets L lead_slack"
    by (rule validate_pair(3) [OF snake_case_lead_nodes(1) r(1) snake_case_lead_nodes(2) r(2)])
      (simp_all add: lead_assembled_def)
  then show ?thesis
    by (simp add: validate_security_def no_secrets_lead no_env_lead required_env_vars_def)
qed

lemma lead_schema_logic:
  "validate_json_schema lead_assembled
           = Inr [result True ''schema'' WorkflowNameValid,
                  result True ''schema'' (NodeCountAcceptable 8),
                  result True ''schema'' ConnectionsValid]"
  "validate_business_logic lead_assembled
           = [result True ''logic'' (ErrorHandlingImplemented 4),
              result True ''logic'' (RetryLogicImplemented 8)]"
  "validate_performance lead_assembled
           = [result True ''performance'' (ExecutionTimeAcceptable 16)]"
  "list_all passed (validate_integrations lead_assembled)"
proof -
  have r: "retries lead_webhook = 3" "retries lead_slack = 3"
    by (simp_all add: lead_webhook_def lead_slack_def node_A_def node_B_def)
  note v = validate_pair [OF snake_case_lead_nodes(1) r(1) snake_case_lead_nodes(2) r(2),
      of "''lead_capture_automation''" lead_assembled "[]"]
  have n: "''lead_capture_automation'' \<noteq> []" by simp
  have c: "lead_assembled = \<lparr>w_name = ''lead_capture_automation'',
      nodes = [lead_webhook, lead_slack,
               log_shadow ''lead_capture_automation'' 0 lead_webhook,
               log_shadow ''lead_capture_automation'' 1 lead_slack,
               error_shadow ''lead_capture_automation'' 0 lead_webhook,
               error_shadow ''lead_capture_automation'' 1 lead_slack,
               error_shadow ''lead_capture_automation'' 2
                 (log_shadow ''lead_capture_automation'' 0 lead_webhook),
               error_shadow ''lead_capture_automation'' 3
                 (log_shadow ''lead_capture_automation'' 1 lead_slack)],
      connections = [], settings = [], w_id = None, active = False, tags = []\<rparr>"
    by (simp add: lead_assembled_def)
  show "validate_json_schema lead_assembled
           = Inr [result True ''schema'' WorkflowNameValid,
                  result True ''schema'' (NodeCountAcceptable 8),
                  result True ''schema'' ConnectionsValid]"
    by (rule v(1) [OF n c])
  show "validate_business_logic lead_assembled
           = [result True ''logic'' (ErrorHandlingImplemented 4),
              result True ''logic'' (RetryLogicImplemented 8)]"
    by (rule v(2) [OF n c])
  show "validate_performance lead_assembled
           = [result True ''performance'' (ExecutionTimeAcceptable 16)]"
    by (rule v(4) [OF n c])
  show "list_all passed (validate_integrations lead_assembled)"
    by (rule v(5) [OF n c])
qed

lemma overall_status_cases:
  "overall_status (report_summary rs) = (if list_all passed rs then ''PASS'' else ''FAIL'')"
  using overall_status_pass [of rs] by (simp add: report_summary_def Let_def split: if_splits)

text \<open>
  Claim C2, as stated, fails on the two templates above. \<open>add_error_handling\<close> runs after
  \<open>add_logging_instrumentation\<close> and makes a handler for every node whose name does not
  start with \<open>error__\<close>, the two logging nodes included: the assembled workflow has
  8 nodes, four of them error handlers, not 6. And the security level of the validator
  requires a reference \<open>${{ $env.NOTION_TOKEN }}\<close> in some node's parameters: there is
  none, the check of the environment variables fails and the overall status is
  \<open>FAIL\<close>, over the schema, logic and security levels as over all five.
\<close>

theorem assemble_lead_capture_counterexample:
  "assemble_workflows example_lib lead_vault [''A'', ''B''] lead_opportunity = Inr lead_assembled
   \<and> length (nodes lead_assembled) = 8
   \<and> map n_name (nodes lead_assembled)
       = [''webhook_trigger'', ''slack_b_notify'', ''log__webhook_trigger'', ''log__slack_b_notify'',
          ''error__webhook_trigger'', ''error__slack_b_notify'', ''error__log__webhook_trigger'',
          ''error__log__slack_b_notify'']
   \<and> validate_security example_lib lead_assembled
       = [result True ''security'' NoHardcodedSecrets,
          result False ''security'' (MissingEnvVars {''NOTION_TOKEN''})]
   \<and> map_sum id
        (\<lambda>schema. overall_status
           (report_summary (schema @ validate_business_logic lead_assembled
                            @ validate_security example_lib lead_assembled)))
        (validate_json_schema lead_assembled) = Inr ''FAIL''
   \<and> map_sum id (\<lambda>rs. overall_status (report_summary rs))
        (validate_workflow example_lib lead_assembled) = Inr ''FAIL''"
proof -
  have l: "length (nodes lead_assembled) = 8" by (simp add: lead_assembled_def)
  have f: "\<not> list_all passed (validate_security example_lib lead_assembled)"
    by (simp add: lead_security result_def)
  have 1: "overall_status (report_summary rs) = ''FAIL''" if "\<not> list_all passed rs" for rs
    using that overall_status_pass [of rs]
    by (simp add: report_summary_def Let_def split: if_splits)
  have 2: "map_sum id
        (\<lambda>schema. overall_status
           (report_summary (schema @ validate_business_logic lead_assembled
                            @ validate_security example_lib lead_assembled)))
        (validate_json_schema lead_assembled) = Inr ''FAIL''"
    using f by (simp add: lead_schema_logic(1) 1)
  have 3: "map_sum id (\<lambda>rs. overall_status (report_summary rs))
        (validate_workflow example_lib lead_assembled) = Inr ''FAIL''"
    using f by (simp add: validate_workflow_def lead_schema_logic(1) 1)
  show ?thesis
    apply (rule conjI [OF assemble_lead])
    apply (rule conjI [OF l])
    apply (rule conjI [OF lead_names])
    apply (rule conjI [OF lead_security])
    apply (rule conjI [OF 2 3])
    done
qed

text \<open>The same vault with a reference to \<open>NOTION_TOKEN\<close> in the slack node.\<close>

lemma check_template_N: "validate_workflow_json template_N = Inr []"
  by (simp add: template_N_def raw_check_defs lower_trigger match_trigger)

lemma from_template_N: "from_n8n_json L template_N = Inr workflow_N"
  by (simp add: template_N_def from_json_defs valid_name_trigger workflow_naming_A
      workflow_N_def workflow_B_def node_N_def node_B_def)

lemma load_notion_templates:
  "load_workflow_from_vault L notion_vault ''A'' = Inr workflow_A"
  "load_workflow_from_vault L notion_vault ''B'' = Inr workflow_N"
  by (simp_all add: load_workflow_from_vault_def notion_vault_def check_templates check_template_N
      from_template_A from_template_N)

lemma dumps_notion:
  "json_dumps L (JObj [(''text'', JStr ''${{ $env.NOTION_TOKEN }}'')])
     = ''{'' @ [CHR 0x22] @ ''text'' @ [CHR 0x22] @ '': '' @ [CHR 0x22]
       @ ''${{ $env.NOTION_TOKEN }}'' @ [CHR 0x22] @ ''}''"
  by (simp add: json_string_def escape_char_def)

lemma env_notion:
  "find_env_vars (json_dumps L (JObj [(''text'', JStr ''${{ $env.NOTION_TOKEN }}'')]))
     = [''NOTION_TOKEN'']"
  unfolding dumps_notion
  by (simp add: find_env_vars_def match_env_at_def startswith_def is_space_def upper_alphabet_def
      eval_nat_numeral Let_def)

lemma secrets_notion:
  "parameters node = [(''text'', JStr ''${{ $env.NOTION_TOKEN }}'')] \<Longrightarrow> node_secrets L node = []"
  by (simp add: node_secrets_def dumps_notion startswith_def del: json_dumps.simps)

lemma extract_env_member:
  "node \<in> set (nodes W) \<Longrightarrow> v \<in> set (find_env_vars (json_dumps L (JObj (parameters node))))
   \<Longrightarrow> v \<in> extract_env_variables L W"
  unfolding extract_env_variables_def set_concat set_map by blast

lemma lead_capture_name:
  "title opportunity = ''Lead Capture''
   \<Longrightarrow> generate_workflow_name opportunity = ''lead_capture_automation''"
  by (simp add: generate_workflow_name_def isalnum_def char_class_defs)

lemma validate_security_pass:
  "list_all passed (validate_security L W)
   \<longleftrightarrow> find_hardcoded_secrets L W = [] \<and> ''NOTION_TOKEN'' \<in> extract_env_variables L W"
  by (simp add: validate_security_def Let_def required_env_vars_def result_def)

text \<open>
  Claim C2, amended: given two vault templates \<open>A\<close>, of one webhook node, and \<open>B\<close>,
  of one slack node, both without connections, and an opportunity titled
  \<open>Lead Capture\<close>, \<open>assemble_workflows ["A", "B"]\<close> returns a workflow named
  \<open>lead_capture_automation\<close> of 8 nodes: the two original nodes, renamed, a logging
  node for each, and four error handlers, one for each original node and one for each
  logging node. Every node has \<open>retries = 3\<close>. On this output the three schema checks
  and the two business-logic checks of the validator pass, the hardcoded secrets found
  are those of the two original nodes, and the overall status, over the schema, logic and
  security levels as over all five levels, is \<open>PASS\<close> when no hardcoded secret is found
  and the parameters of some node refer to \<open>${{ $env.NOTION_TOKEN }}\<close>, and
  \<open>FAIL\<close> otherwise.
\<close>

theorem assemble_lead_capture:
  assumes la: "load_workflow_from_vault L V ''A'' = Inr WA"
    and a: "nodes WA = [a]" "n_type a = ''n8n-nodes-base.webhook''" "connections WA = []"
    and lb: "load_workflow_from_vault L V ''B'' = Inr WB"
    and b: "nodes WB = [b]" "n_type b = ''n8n-nodes-base.slack''" "connections WB = []"
    and t: "title opportunity = ''Lead Capture''"
  shows "\<exists>C. assemble_workflows L V [''A'', ''B''] opportunity = Inr C
      \<and> w_name C = ''lead_capture_automation''
      \<and> nodes C
          = [enforce_node a, enforce_node (combined_node (w_name WB) 400 b),
             log_shadow ''lead_capture_automation'' 0 (enforce_node a),
             log_shadow ''lead_capture_automation'' 1
               (enforce_node (combined_node (w_name WB) 400 b)),
             error_shadow ''lead_capture_automation'' 0 (enforce_node a),
             error_shadow ''lead_capture_automation'' 1
               (enforce_node (combined_node (w_name WB) 400 b)),
             error_shadow ''lead_capture_automation'' 2
               (log_shadow ''lead_capture_automation'' 0 (enforce_node a)),
             error_shadow ''lead_capture_automation'' 3
               (log_shadow ''lead_capture_automation'' 1
                  (enforce_node (combined_node (w_name WB) 400 b)))]
      \<and> length (nodes C) = 8
      \<and> list_all (\<lambda>node. retries node = 3) (nodes C)
      \<and> validate_json_schema C
          = Inr [result True ''schema'' WorkflowNameValid,
                 result True ''schema'' (NodeCountAcceptable 8),
                 result True ''schema'' ConnectionsValid]
      \<and> validate_business_logic C
          = [result True ''logic'' (ErrorHandlingImplemented 4),
             result True ''logic'' (RetryLogicImplemented 8)]
      \<and> find_hardcoded_secrets L C
          = node_secrets L (enforce_node a)
            @ node_secrets L (enforce_node (combined_node (w_name WB) 400 b))
      \<and> map_sum id
           (\<lambda>schema. overall_status
              (report_summary (schema @ validate_business_logic C @ validate_security L C)))
           (validate_json_schema C)
          = Inr (if find_hardcoded_secrets L C = [] \<and> ''NOTION_TOKEN'' \<in> extract_env_variables L C
                 then ''PASS'' else ''FAIL'')
      \<and> map_sum id (\<lambda>rs. overall_status (report_summary rs)) (validate_workflow L C)
          = Inr (if find_hardcoded_secrets L C = [] \<and> ''NOTION_TOKEN'' \<in> extract_env_variables L C
                 then ''PASS'' else ''FAIL'')"
proof -
  let ?wn = "''lead_capture_automation''"
  let ?x = "enforce_node a" and ?y = "enforce_node (combined_node (w_name WB) 400 b)"
  let ?ns = "[?x, ?y, log_shadow ?wn 0 ?x, log_shadow ?wn 1 ?y,
              error_shadow ?wn 0 ?x, error_shadow ?wn 1 ?y,
              error_shadow ?wn 2 (log_shadow ?wn 0 ?x),
              error_shadow ?wn 3 (log_shadow ?wn 1 ?y)]"
  define C where "C = \<lparr>w_name = ?wn, nodes = ?ns, connections = [], settings = settings WA,
                        w_id = None, active = False, tags = []\<rparr>"
  have asm: "assemble_workflows L V [''A'', ''B''] opportunity = Inr C"
    unfolding assemble_pair [OF la a lb b]
    by (simp only: lead_capture_name [OF t] lead_name_normal Let_def C_def)
  from load_valid [OF la] a have ra: "retries a = 3" by (simp add: valid_workflow_def)
  from load_valid [OF lb] b have rb: "retries b = 3" by (simp add: valid_workflow_def)
  have x: "snake_case (n_name ?x)" "retries ?x = 3"
    using enforce_node_snake [of a] ra by (simp_all add: enforce_node_fields)
  have y: "snake_case (n_name ?y)" "retries ?y = 3"
    using enforce_node_snake [of "combined_node (w_name WB) 400 b"] rb
    by (simp_all add: enforce_node_fields combined_node_fields)
  have wn: "?wn \<noteq> []" by simp
  note v = validate_pair [OF x y wn C_def]
  have n: "w_name C = ?wn" by (simp add: C_def)
  have ns: "nodes C = ?ns" by (simp add: C_def)
  have l: "length (nodes C) = 8" by (simp add: C_def)
  have r: "list_all (\<lambda>node. retries node = 3) (nodes C)"
    using x(2) y(2) by (simp add: C_def shadow_fields)
  have p: "list_all passed (validate_business_logic C)" "list_all passed (validate_performance C)"
    by (simp_all add: v(2) v(4) result_def)
  have s1: "map_sum id
           (\<lambda>schema. overall_status
              (report_summary (schema @ validate_business_logic C @ validate_security L C)))
           (validate_json_schema C)
          = Inr (if find_hardcoded_secrets L C = [] \<and> ''NOTION_TOKEN'' \<in> extract_env_variables L C
                 then ''PASS'' else ''FAIL'')"
    using p by (simp add: v(1) overall_status_cases validate_security_pass result_def)
  have s2: "map_sum id (\<lambda>rs. overall_status (report_summary rs)) (validate_workflow L C)
          = Inr (if find_hardcoded_secrets L C = [] \<and> ''NOTION_TOKEN'' \<in> extract_env_variables L C
                 then ''PASS'' else ''FAIL'')"
    using p v(5)
    by (simp add: validate_workflow_def v(1) overall_status_cases validate_security_pass result_def)
  show ?thesis
    apply (rule exI [of _ C])
    apply (rule conjI [OF asm])
    apply (rule conjI [OF n])
    apply (rule conjI [OF ns])
    apply (rule conjI [OF l])
    apply (rule conjI [OF r])
    apply (rule conjI [OF v(1)])
    apply (rule conjI [OF v(2)])
    apply (rule conjI [OF v(3)])
    apply (rule conjI [OF s1 s2])
    done
qed

theorem assemble_lead_capture_witness:
  "load_workflow_from_vault example_lib notion_vault ''A'' = Inr workflow_A
   \<and> nodes workflow_A = [node_A] \<and> n_type node_A = ''n8n-nodes-base.webhook''
   \<and> connections workflow_A = []
   \<and> load_workflow_from_vault example_lib notion_vault ''B'' = Inr workflow_N
   \<and> nodes workflow_N = [node_N] \<and> n_type node_N = ''n8n-nodes-base.slack''
   \<and> connections workflow_N = []
   \<and> title lead_opportunity = ''Lead Capture''
   \<and> (\<exists>C. assemble_workflows example_lib notion_vault [''A'', ''B''] lead_opportunity = Inr C
      \<and> w_name C = ''lead_capture_automation''
      \<and> length (nodes C) = 8
      \<and> list_all (\<lambda>node. retries node = 3) (nodes C)
      \<and> find_hardcoded_secrets example_lib C = []
      \<and> ''NOTION_TOKEN'' \<in> extract_env_variables example_lib C
      \<and> map_sum id
           (\<lambda>schema. overall_status
              (report_summary (schema @ validate_business_logic C @ validate_security example_lib C)))
           (validate_json_schema C)
          = Inr ''PASS''
      \<and> map_sum id (\<lambda>rs. overall_status (report_summary rs)) (validate_workflow example_lib C)
          = Inr ''PASS'')"
proof -
  have a: "nodes workflow_A = [node_A]" "n_type node_A = ''n8n-nodes-base.webhook''"
    "connections workflow_A = []"
    by (simp_all add: workflow_A_def node_A_def)
  have b: "nodes workflow_N = [node_N]" "n_type node_N = ''n8n-nodes-base.slack''"
    "connections workflow_N = []"
    by (simp_all add: workflow_N_def workflow_B_def node_N_def node_B_def)
  have t: "title lead_opportunity = ''Lead Capture''" by (simp add: lead_opportunity_def)
  let ?x = "enforce_node node_A"
  let ?y = "enforce_node (combined_node (w_name workflow_N) 400 node_N)"
  have px: "parameters ?x = []" by (simp add: enforce_node_fields node_A_def)
  have py: "parameters ?y = [(''text'', JStr ''${{ $env.NOTION_TOKEN }}'')]"
    by (simp add: enforce_node_fields combined_node_def node_N_def)
  have sx: "node_secrets example_lib ?x = []" using px by (rule no_secrets_empty)
  have sy: "node_secrets example_lib ?y = []" using py by (rule secrets_notion)
  have ey: "''NOTION_TOKEN'' \<in> set (find_env_vars (json_dumps example_lib (JObj (parameters ?y))))"
    unfolding py env_notion by simp
  have e: "\<exists>C. assemble_workflows example_lib notion_vault [''A'', ''B''] lead_opportunity = Inr C
      \<and> w_name C = ''lead_capture_automation''
      \<and> length (nodes C) = 8
      \<and> list_all (\<lambda>node. retries node = 3) (nodes C)
      \<and> find_hardcoded_secrets example_lib C = []
      \<and> ''NOTION_TOKEN'' \<in> extract_env_variables example_lib C
      \<and> map_sum id
           (\<lambda>schema. overall_status
              (report_summary (schema @ validate_business_logic C @ validate_security example_lib C)))
           (validate_json_schema C)
          = Inr ''PASS''
      \<and> map_sum id (\<lambda>rs. overall_status (report_summary rs)) (validate_workflow example_lib C)
          = Inr ''PASS''"
    using assemble_lead_capture [OF load_notion_templates(1) a load_notion_templates(2) b t,
        of example_lib]
  proof (elim exE conjE)
    fix C
    assume asm: "assemble_workflows example_lib notion_vault [''A'', ''B''] lead_opportunity = Inr C"
      and n: "w_name C = ''lead_capture_automation''"
      and ns: "nodes C
          = [?x, ?y,
             log_shadow ''lead_capture_automation'' 0 ?x,
             log_shadow ''lead_capture_automation'' 1 ?y,
             error_shadow ''lead_capture_automation'' 0 ?x,
             error_shadow ''lead_capture_automation'' 1 ?y,
             error_shadow ''lead_capture_automation'' 2
               (log_shadow ''lead_capture_automation'' 0 ?x),
             error_shadow ''lead_capture_automation'' 3
               (log_shadow ''lead_capture_automation'' 1 ?y)]"
      and l: "length (nodes C) = 8"
      and r: "list_all (\<lambda>node. retries node = 3) (nodes C)"
      and f: "find_hardcoded_secrets example_lib C = node_secrets example_lib ?x @ node_secrets example_lib ?y"
      and s1: "map_sum id
           (\<lambda>schema. overall_status
              (report_summary (schema @ validate_business_logic C @ validate_security example_lib C)))
           (validate_json_schema C)
          = Inr (if find_hardcoded_secrets example_lib C = []
                    \<and> ''NOTION_TOKEN'' \<in> extract_env_variables example_lib C
                 then ''PASS'' else ''FAIL'')"
      and s2: "map_sum id (\<lambda>rs. overall_status (report_summary rs)) (validate_workflow example_lib C)
          = Inr (if find_hardcoded_secrets example_lib C = []
                    \<and> ''NOTION_TOKEN'' \<in> extract_env_variables example_lib C
                 then ''PASS'' else ''FAIL'')"
    have f': "find_hardcoded_secrets example_lib C = []" unfolding f sx sy by simp
    have m: "?y \<in> set (nodes C)" unfolding ns by simp
    have v: "''NOTION_TOKEN'' \<in> extract_env_variables example_lib C"
      using m ey by (rule extract_env_member)
    have c: "find_hardcoded_secrets example_lib C = []
               \<and> ''NOTION_TOKEN'' \<in> extract_env_variables example_lib C"
      using f' v by (rule conjI)
    show ?thesis
      apply (rule exI [of _ C])
      apply (rule conjI [OF asm])
      apply (rule conjI [OF n])
      apply (rule conjI [OF l])
      apply (rule conjI [OF r])
      apply (rule conjI [OF f'])
      apply (rule conjI [OF v])
      apply (rule conjI [OF s1 [unfolded if_P [OF c]] s2 [unfolded if_P [OF c]]])
      done
  qed
  show ?thesis
    apply (rule conjI [OF load_notion_templates(1)])
    apply (rule conjI [OF a(1)])
    apply (rule conjI [OF a(2)])
    apply (rule conjI [OF a(3)])
    apply (rule conjI [OF load_notion_templates(2)])
    apply (rule conjI [OF b(1)])
    apply (rule conjI [OF b(2)])
    apply (rule conjI [OF b(3)])
    apply (rule conjI [OF t e])
    done
qed

end
